theory Spec2Isabelle
  imports Complex_Main "HOL-Library.Word"
begin

section \<open>The aspect pipeline of processing.cpp\<close>

text \<open>
  A shallow embedding of \<^verbatim>\<open>src/aspect/processing.cpp\<close>: the class \<open>Aspect\<close> is a
  record, every member function takes the object and returns the updated object, and the
  pipeline state \<open>AspectCode\<close> is the only error channel, as in the source.

  Conventions of the embedding.
  \<^item> A C++ \<open>float\<close> or \<open>double\<close> is a value of \<open>flt\<close>: a real number or the
    single non-finite value \<open>NonFin\<close> (an infinity or a NaN). Arithmetic is exact
    (rounding is not modelled) and \<open>NonFin\<close> is absorbing; every comparison with
    \<open>NonFin\<close> is false. The source tests \<open>std::isfinite\<close> before it orders a
    computed value, so the sign of an infinity is never observed.
  \<^item> \<open>int\<close> members are HOL integers (no overflow is reachable at image sizes);
    integer division truncates towards zero, as in C++.
  \<^item> A \<open>cv::Mat\<close> of 8-bit pixels is its size and a pixel function.
  \<^item> What the source leaves to undefined behaviour or to an OpenCV assertion is a
    \<open>fault\<close> of the model, never a silent value.
\<close>

subsection \<open>Floating-point values\<close>

datatype flt = Fin real | NonFin

fun isfinite :: "flt \<Rightarrow> bool" where
  "isfinite (Fin x) = True"
| "isfinite NonFin = False"

fun fadd :: "flt \<Rightarrow> flt \<Rightarrow> flt" where
  "fadd (Fin x) (Fin y) = Fin (x + y)"
| "fadd _ _ = NonFin"

fun fsub :: "flt \<Rightarrow> flt \<Rightarrow> flt" where
  "fsub (Fin x) (Fin y) = Fin (x - y)"
| "fsub _ _ = NonFin"

fun fmul :: "flt \<Rightarrow> flt \<Rightarrow> flt" where
  "fmul (Fin x) (Fin y) = Fin (x * y)"
| "fmul _ _ = NonFin"

text \<open>Division by zero gives an infinity or a NaN, never a trap.\<close>

fun fdiv :: "flt \<Rightarrow> flt \<Rightarrow> flt" where
  "fdiv (Fin x) (Fin y) = (if y = 0 then NonFin else Fin (x / y))"
| "fdiv _ _ = NonFin"

fun fabs :: "flt \<Rightarrow> flt" where
  "fabs (Fin x) = Fin \<bar>x\<bar>"
| "fabs NonFin = NonFin"

fun fsqrt :: "flt \<Rightarrow> flt" where
  "fsqrt (Fin x) = (if x < 0 then NonFin else Fin (sqrt x))"
| "fsqrt NonFin = NonFin"

fun flt_lt :: "flt \<Rightarrow> flt \<Rightarrow> bool" where
  "flt_lt (Fin x) (Fin y) = (x < y)"
| "flt_lt _ _ = False"

fun flt_le :: "flt \<Rightarrow> flt \<Rightarrow> bool" where
  "flt_le (Fin x) (Fin y) = (x \<le> y)"
| "flt_le _ _ = False"

definition flt_gt :: "flt \<Rightarrow> flt \<Rightarrow> bool" where
  "flt_gt a b = flt_lt b a"

definition flt_ge :: "flt \<Rightarrow> flt \<Rightarrow> bool" where
  "flt_ge a b = flt_le b a"

definition flt_of_int :: "int \<Rightarrow> flt" where
  "flt_of_int i = Fin (real_of_int i)"

text \<open>Conversion of a floating-point value to \<open>int\<close> truncates towards zero.\<close>

definition trunc :: "real \<Rightarrow> int" where
  "trunc x = (if 0 \<le> x then \<lfloor>x\<rfloor> else \<lceil>x\<rceil>)"

text \<open>C++ integer division truncates towards zero; HOL's \<open>div\<close> rounds down.\<close>

definition tdiv :: "int \<Rightarrow> int \<Rightarrow> int" where
  "tdiv a b = sgn a * sgn b * (\<bar>a\<bar> div \<bar>b\<bar>)"

subsection \<open>Data model\<close>

datatype fault = DivideByZero | CvAssertion | NoReturn

text \<open>
  The pipeline state. The enumerators are those \<^verbatim>\<open>processing.cpp\<close> uses; the
  \<open>*_ERROR\<close> enumerators are the stage ceilings the getters compare against.
\<close>

datatype AspectCode =
    NO_ERROR
  | DYNAMIC_RANGE_LOW | MIN_MAX_BAD | FRAME_EMPTY
  | LIMB_ERROR | NO_LIMB_CROSSINGS | FEW_LIMB_CROSSINGS
  | CENTER_ERROR | CENTER_OUT_OF_BOUNDS | CENTER_ERROR_LARGE
  | SOLAR_IMAGE_EMPTY | SOLAR_IMAGE_SMALL | SOLAR_IMAGE_OFFSET_OUT_OF_BOUNDS
  | FIDUCIAL_ERROR | NO_FIDUCIALS | FEW_FIDUCIALS
  | ID_ERROR | NO_IDS | FEW_IDS
  | MAPPING_ERROR | MAPPING_ILL_CONDITIONED
  | STALE_DATA

text \<open>
  Modelled from the spec: the numeric order of \<open>AspectCode\<close>. The enum is declared in
  \<^verbatim>\<open>processing.hpp\<close>, which is not among the sources; the specification (section 3)
  gives the severity order of the states. The stage ceilings, which the specification
  does not list, stand at the head of the group they name.
\<close>

fun severity :: "AspectCode \<Rightarrow> int" where
  "severity NO_ERROR = 0"
| "severity DYNAMIC_RANGE_LOW = 1"
| "severity MIN_MAX_BAD = 2"
| "severity FRAME_EMPTY = 3"
| "severity LIMB_ERROR = 4"
| "severity NO_LIMB_CROSSINGS = 5"
| "severity FEW_LIMB_CROSSINGS = 6"
| "severity CENTER_ERROR = 7"
| "severity CENTER_OUT_OF_BOUNDS = 8"
| "severity CENTER_ERROR_LARGE = 9"
| "severity SOLAR_IMAGE_EMPTY = 10"
| "severity SOLAR_IMAGE_SMALL = 11"
| "severity SOLAR_IMAGE_OFFSET_OUT_OF_BOUNDS = 12"
| "severity FIDUCIAL_ERROR = 13"
| "severity NO_FIDUCIALS = 14"
| "severity FEW_FIDUCIALS = 15"
| "severity ID_ERROR = 16"
| "severity NO_IDS = 17"
| "severity FEW_IDS = 18"
| "severity MAPPING_ERROR = 19"
| "severity MAPPING_ILL_CONDITIONED = 20"
| "severity STALE_DATA = 21"

type_synonym pixel = "8 word"

text \<open>\<open>cv::Point2f\<close>, \<open>cv::Point2i\<close> (x first), \<open>CoordList\<close> and \<open>IndexList\<close>.\<close>

type_synonym Point2f = "flt \<times> flt"
type_synonym Point2i = "int \<times> int"
type_synonym CoordList = "Point2f list"
type_synonym IndexList = "Point2i list"

text \<open>
  A single-channel 8-bit \<open>cv::Mat\<close>: \<open>pix m r c\<close> is the pixel of row \<open>r\<close> and
  column \<open>c\<close>, meaningful for \<open>r < rows m\<close> and \<open>c < cols m\<close>.
\<close>

record Mat =
  rows :: nat
  cols :: nat
  pix :: "nat \<Rightarrow> nat \<Rightarrow> pixel"

definition Mat_empty :: "Mat \<Rightarrow> bool" where
  "Mat_empty m = (rows m = 0 \<or> cols m = 0)"

definition no_Mat :: Mat where
  "no_Mat = \<lparr>rows = 0, cols = 0, pix = (\<lambda>r c. 0)\<rparr>"

text \<open>The data members of \<open>Aspect\<close> that \<^verbatim>\<open>processing.cpp\<close> reads or writes
  (sizes are \<open>(width, height)\<close>; the correlation kernel is left out, see
  \<open>FindPixelFiducials\<close> below).\<close>

record Aspect =
  state :: AspectCode
  frame :: Mat
  frameSize :: "int \<times> int"
  frameMin :: pixel
  frameMax :: pixel
  initialNumChords :: int
  chordsPerAxis :: int
  limbThreshold :: real
  diskThreshold :: real
  solarImage :: Mat
  solarImageSize :: "int \<times> int"
  solarImageOffset :: Point2i
  solarRadius :: int
  radiusMargin :: real
  errorLimit :: real
  limbFitWidth :: int
  fiducialLength :: int
  fiducialWidth :: int
  fiducialThreshold :: real
  minLimbWidth :: int
  numFiducials :: int
  fiducialSpacing :: real
  fiducialSpacingTol :: real
  fiducialTwist :: real
  pixelCenter :: Point2f
  pixelError :: Point2f
  mDistances :: "real list"
  nDistances :: "real list"
  mapping :: "flt list"
  conditionNumbers :: "flt list"
  limbCrossings :: CoordList
  slopes :: "flt list"
  pixelFiducials :: CoordList
  fiducialIDs :: IndexList
  rowPairs :: IndexList
  colPairs :: IndexList

subsection \<open>Construction and \<open>LoadFrame\<close>\<close>

text \<open>The table both \<open>mDistances\<close> and \<open>nDistances\<close> are filled with
  (lines 81 to 93).\<close>

definition distance_table :: "real \<Rightarrow> real list" where
  "distance_table spacing =
     map (\<lambda>k. if k < 7 then (84 - real k * 6) * spacing / 15
               else (45 + (real k - 7) * 6) * spacing / 15) [0..<14]"

text \<open>The constructor \<open>Aspect::Aspect\<close> (lines 30 to 96).\<close>

definition Aspect_new :: Aspect where
  "Aspect_new =
     \<lparr>state = STALE_DATA,
      frame = no_Mat,
      frameSize = (0, 0),
      frameMin = 255,
      frameMax = 0,
      initialNumChords = 30,
      chordsPerAxis = 10,
      limbThreshold = 25 / 100,
      diskThreshold = 75 / 100,
      solarImage = no_Mat,
      solarImageSize = (0, 0),
      solarImageOffset = (0, 0),
      solarRadius = 98,
      radiusMargin = 25 / 100,
      errorLimit = 50,
      limbFitWidth = 2,
      fiducialLength = 15,
      fiducialWidth = 2,
      fiducialThreshold = 5,
      minLimbWidth = 15,
      numFiducials = 12,
      fiducialSpacing = 156 / 10,
      fiducialSpacingTol = 15 / 10,
      fiducialTwist = 0,
      pixelCenter = (Fin (- 1), Fin (- 1)),
      pixelError = (Fin 0, Fin 0),
      mDistances = distance_table (156 / 10),
      nDistances = distance_table (156 / 10),
      mapping = replicate 4 (Fin 0),
      conditionNumbers = [],
      limbCrossings = [],
      slopes = [],
      pixelFiducials = [],
      fiducialIDs = [],
      rowPairs = [],
      colPairs = []\<rparr>"

text \<open>\<open>Aspect::LoadFrame\<close> (lines 103 to 131).\<close>

definition LoadFrame :: "Aspect \<Rightarrow> Mat \<Rightarrow> Aspect" where
  "LoadFrame a inputFrame =
     (if Mat_empty inputFrame then a\<lparr>state := FRAME_EMPTY\<rparr>
      else if cols inputFrame = 0 \<or> rows inputFrame = 0 then a\<lparr>state := FRAME_EMPTY\<rparr>
      else a\<lparr>frame := inputFrame,
             frameSize := (int (cols inputFrame), int (rows inputFrame)),
             state := NO_ERROR\<rparr>)"

subsection \<open>Parameters\<close>

text \<open>The parameter selectors of \<open>SetFloat\<close> and \<open>SetInteger\<close>.\<close>

datatype AspectFloat =
    LIMB_THRESHOLD | DISK_THRESHOLD | ERROR_LIMIT | RADIUS_MARGIN
  | FIDUCIAL_THRESHOLD | FIDUCIAL_SPACING | FIDUCIAL_SPACING_TOL | FIDUCIAL_TWIST

datatype AspectInt =
    NUM_CHORDS_SEARCHING | NUM_CHORDS_OPERATING | MIN_LIMB_WIDTH | LIMB_FIT_WIDTH
  | SOLAR_RADIUS | FIDUCIAL_LENGTH | FIDUCIAL_WIDTH | NUM_FIDUCIALS

text \<open>\<open>Aspect::SetFloat\<close> (lines 624 to 656).\<close>

fun SetFloat :: "Aspect \<Rightarrow> AspectFloat \<Rightarrow> real \<Rightarrow> Aspect" where
  "SetFloat a LIMB_THRESHOLD v = a\<lparr>limbThreshold := v\<rparr>"
| "SetFloat a DISK_THRESHOLD v = a\<lparr>diskThreshold := v\<rparr>"
| "SetFloat a ERROR_LIMIT v = a\<lparr>errorLimit := v\<rparr>"
| "SetFloat a RADIUS_MARGIN v = a\<lparr>radiusMargin := v\<rparr>"
| "SetFloat a FIDUCIAL_THRESHOLD v = a\<lparr>fiducialThreshold := v\<rparr>"
| "SetFloat a FIDUCIAL_SPACING v = a\<lparr>fiducialSpacing := v\<rparr>"
| "SetFloat a FIDUCIAL_SPACING_TOL v = a\<lparr>fiducialSpacingTol := v\<rparr>"
| "SetFloat a FIDUCIAL_TWIST v = a\<lparr>fiducialTwist := v\<rparr>"

text \<open>\<open>Aspect::SetInteger\<close> (lines 658 to 690).\<close>

fun SetInteger :: "Aspect \<Rightarrow> AspectInt \<Rightarrow> int \<Rightarrow> Aspect" where
  "SetInteger a NUM_CHORDS_SEARCHING v = a\<lparr>initialNumChords := v\<rparr>"
| "SetInteger a NUM_CHORDS_OPERATING v = a\<lparr>chordsPerAxis := v\<rparr>"
| "SetInteger a MIN_LIMB_WIDTH v = a\<lparr>minLimbWidth := v\<rparr>"
| "SetInteger a LIMB_FIT_WIDTH v = a\<lparr>limbFitWidth := v\<rparr>"
| "SetInteger a SOLAR_RADIUS v = a\<lparr>solarRadius := v\<rparr>"
| "SetInteger a FIDUCIAL_LENGTH v = a\<lparr>fiducialLength := v\<rparr>"
| "SetInteger a FIDUCIAL_WIDTH v = a\<lparr>fiducialWidth := v\<rparr>"
| "SetInteger a NUM_FIDUCIALS v = a\<lparr>numFiducials := v\<rparr>"

subsection \<open>\<open>PixelToScreen\<close> and the getters\<close>

text \<open>\<open>Aspect::PixelToScreen\<close> (lines 1523 to 1531); \<open>mapping\<close> has four entries
  from the constructor on.\<close>

definition PixelToScreen :: "Aspect \<Rightarrow> Point2f \<Rightarrow> Point2f" where
  "PixelToScreen a pixelPoint =
     (fadd (mapping a ! 0) (fmul (mapping a ! 1) (fst pixelPoint)),
      fadd (mapping a ! 2) (fmul (mapping a ! 3) (snd pixelPoint)))"

text \<open>
  The getters (lines 433 to 566). Each takes the numeric encoding \<open>code\<close> of
  \<open>AspectCode\<close> (declared in a header that is not among the sources), the object and
  the current value of its reference arguments, and returns the returned code with the
  new value of the reference arguments.
\<close>

definition GetPixelMinMax ::
  "(AspectCode \<Rightarrow> int) \<Rightarrow> Aspect \<Rightarrow> pixel \<times> pixel \<Rightarrow> AspectCode \<times> (pixel \<times> pixel)" where
  "GetPixelMinMax code a out =
     (if code (state a) < code FRAME_EMPTY then (NO_ERROR, (frameMin a, frameMax a))
      else (state a, out))"

definition GetPixelCrossings ::
  "(AspectCode \<Rightarrow> int) \<Rightarrow> Aspect \<Rightarrow> CoordList \<Rightarrow> AspectCode \<times> CoordList" where
  "GetPixelCrossings code a crossings =
     (if code (state a) < code LIMB_ERROR then (NO_ERROR, [] @ limbCrossings a)
      else (state a, crossings))"

definition GetPixelCenter ::
  "(AspectCode \<Rightarrow> int) \<Rightarrow> Aspect \<Rightarrow> Point2f \<Rightarrow> AspectCode \<times> Point2f" where
  "GetPixelCenter code a center =
     (if code (state a) < code CENTER_ERROR then (NO_ERROR, pixelCenter a)
      else (state a, center))"

definition GetPixelError ::
  "(AspectCode \<Rightarrow> int) \<Rightarrow> Aspect \<Rightarrow> Point2f \<Rightarrow> AspectCode \<times> Point2f" where
  "GetPixelError code a err =
     (if code (state a) < code CENTER_ERROR then (NO_ERROR, pixelError a)
      else (state a, err))"

definition GetPixelFiducials ::
  "(AspectCode \<Rightarrow> int) \<Rightarrow> Aspect \<Rightarrow> CoordList \<Rightarrow> AspectCode \<times> CoordList" where
  "GetPixelFiducials code a fiducials =
     (if code (state a) < code FIDUCIAL_ERROR then (NO_ERROR, [] @ pixelFiducials a)
      else (state a, fiducials))"

definition GetFiducialPairs ::
  "(AspectCode \<Rightarrow> int) \<Rightarrow> Aspect \<Rightarrow> IndexList \<times> IndexList \<Rightarrow> AspectCode \<times> (IndexList \<times> IndexList)" where
  "GetFiducialPairs code a out =
     (if code (state a) < code ID_ERROR then (NO_ERROR, ([] @ rowPairs a, [] @ colPairs a))
      else (state a, out))"

definition GetFiducialIDs ::
  "(AspectCode \<Rightarrow> int) \<Rightarrow> Aspect \<Rightarrow> IndexList \<Rightarrow> AspectCode \<times> IndexList" where
  "GetFiducialIDs code a IDs =
     (if code (state a) < code ID_ERROR then (NO_ERROR, [] @ fiducialIDs a)
      else (state a, IDs))"

definition GetMapping ::
  "(AspectCode \<Rightarrow> int) \<Rightarrow> Aspect \<Rightarrow> flt list \<Rightarrow> AspectCode \<times> flt list" where
  "GetMapping code a mp =
     (if code (state a) < code MAPPING_ERROR then (NO_ERROR, [] @ mapping a)
      else (state a, mp))"

definition GetScreenCenter ::
  "(AspectCode \<Rightarrow> int) \<Rightarrow> Aspect \<Rightarrow> Point2f \<Rightarrow> AspectCode \<times> Point2f" where
  "GetScreenCenter code a center =
     (if code (state a) < code MAPPING_ERROR then (NO_ERROR, PixelToScreen a (pixelCenter a))
      else (state a, center))"

text \<open>\<open>GetScreenFiducials\<close> clears its argument before it looks at the state
  (line 555).\<close>

definition GetScreenFiducials ::
  "(AspectCode \<Rightarrow> int) \<Rightarrow> Aspect \<Rightarrow> CoordList \<Rightarrow> AspectCode \<times> CoordList" where
  "GetScreenFiducials code a fiducials0 =
     (let fiducials = [] in
      if code (state a) < code MAPPING_ERROR
      then (NO_ERROR, map (PixelToScreen a) (pixelFiducials a))
      else (state a, fiducials))"

subsection \<open>Robust minimum and maximum: \<open>calcMinMax\<close>\<close>

definition pixels :: "Mat \<Rightarrow> pixel list" where
  "pixels m = concat (map (\<lambda>r. map (pix m r) [0..<cols m]) [0..<rows m])"

text \<open>\<open>cv::calcHist\<close> with 256 unit bins over \<open>[0, 256)\<close>: bin \<open>j\<close> counts the
  pixels of value \<open>j\<close>.\<close>

definition calcHist :: "Mat \<Rightarrow> nat list" where
  "calcHist m = map (\<lambda>j. length (filter (\<lambda>p. unat p = j) (pixels m))) [0..<256]"

text \<open>
  The loop of \<open>calcMinMax\<close> (lines 1785 to 1797). The counter \<open>j\<close> is a
  \<open>uint8_t\<close>: \<open>j++\<close> wraps from 255 to 0 and \<open>j < hist.rows\<close> holds for every
  \<open>j\<close>, so only the two flags end the loop. A loop that never ends is the value
  \<open>None\<close>. The thresholds are the source's: \<open>total >= 0.005*len\<close> for the minimum
  and \<open>total >= (long)(0.995*len)\<close>, truncated to an integer, for the maximum.
\<close>

partial_function (option) calcMinMax_loop ::
  "nat list \<Rightarrow> int \<Rightarrow> int \<Rightarrow> bool \<Rightarrow> bool \<Rightarrow> 8 word \<Rightarrow> pixel \<Rightarrow> pixel \<Rightarrow> (pixel \<times> pixel) option" where
  "calcMinMax_loop hist len tot min_found max_found j mn mx =
     (if unat j < length hist \<and> (\<not> min_found \<or> \<not> max_found) then
        let total' = tot + int (hist ! unat j);
            hit_min = (\<not> min_found \<and> real_of_int total' \<ge> (5 / 1000) * real_of_int len);
            hit_max = (\<not> max_found \<and> total' \<ge> trunc ((995 / 1000) * real_of_int len))
        in calcMinMax_loop hist len total' (min_found \<or> hit_min) (max_found \<or> hit_max) (j + 1)
             (if hit_min then j else mn) (if hit_max then j else mx)
      else Some (mn, mx))"

text \<open>\<open>calcMinMax\<close> (lines 1764 to 1802): the pair \<open>(min, max)\<close>.\<close>

definition calcMinMax :: "Mat \<Rightarrow> (pixel \<times> pixel) option" where
  "calcMinMax fr = calcMinMax_loop (calcHist fr) (int (rows fr) * int (cols fr)) 0 False False 0 255 0"

subsection \<open>\<open>LinearFit\<close>\<close>

definition fsum :: "flt list \<Rightarrow> flt" where
  "fsum xs = foldl fadd (Fin 0) xs"

fun the_real :: "flt \<Rightarrow> real" where
  "the_real (Fin x) = x"
| "the_real NonFin = 0"

text \<open>
  \<open>cv::solve(A, B, X, cv::DECOMP_CHOLESKY)\<close> for a 2 by 2 system, in exact arithmetic
  (OpenCV is not part of the repository): the solution \<open>(X0, X1)\<close> when \<open>A\<close> is
  positive definite; otherwise the factorisation fails and \<open>X\<close> is set to zero.
\<close>

definition cv_solve2 :: "flt \<Rightarrow> flt \<Rightarrow> flt \<Rightarrow> flt \<Rightarrow> flt \<Rightarrow> flt \<Rightarrow> flt \<times> flt" where
  "cv_solve2 A00 A01 A10 A11 B0 B1 =
     (if isfinite A00 \<and> isfinite A01 \<and> isfinite A10 \<and> isfinite A11 \<and> isfinite B0 \<and> isfinite B1 then
        let a00 = the_real A00; a01 = the_real A01; a10 = the_real A10; a11 = the_real A11;
            b0 = the_real B0; b1 = the_real B1;
            det = a00 * a11 - a01 * a10
        in if 0 < a00 \<and> 0 < det
           then (Fin ((b0 * a11 - a01 * b1) / det), Fin ((a00 * b1 - a10 * b0) / det))
           else (Fin 0, Fin 0)
      else (NonFin, NonFin))"

text \<open>
  \<open>LinearFit\<close> (lines 1548 to 1585). The third argument is the caller's \<open>fit\<close>
  vector, returned untouched when the lengths differ; otherwise the result is
  \<open>[intercept, slope]\<close>.
\<close>

definition LinearFit :: "flt list \<Rightarrow> flt list \<Rightarrow> flt list \<Rightarrow> flt list" where
  "LinearFit x y fit =
     (if length x \<noteq> length y then fit
      else
        let N = Fin (real (length x));
            A00 = fsum (map (\<lambda>v. fmul v v) x);
            A01 = fsum x;
            B1 = fsum y;
            B0 = fsum (map (\<lambda>(u, v). fmul u v) (zip x y));
            A10 = A01;
            A11 = N;
            X = cv_solve2 A00 A01 A10 A11 B0 B1
        in [snd X, fst X])"

subsection \<open>Limb crossings of one chord: \<open>FindLimbCrossings\<close>\<close>

text \<open>
  \<open>chord.at<unsigned char>(l)\<close>. The fit loop of the source can read index \<open>K\<close>, one
  past the end of the chord; what that read returns is whatever lies behind the chord in
  memory, and is the parameter \<open>beyond\<close> of the model.
\<close>

definition chord_at :: "pixel \<Rightarrow> pixel list \<Rightarrow> int \<Rightarrow> pixel" where
  "chord_at beyond chord l = (if 0 \<le> l \<and> l < int (length chord) then chord ! nat l else beyond)"

definition lowerThreshold :: "Aspect \<Rightarrow> real" where
  "lowerThreshold a =
     real (unat (frameMin a)) + limbThreshold a * real_of_int (int (unat (frameMax a)) - int (unat (frameMin a)))"

definition upperThreshold :: "Aspect \<Rightarrow> real" where
  "upperThreshold a =
     real (unat (frameMin a)) + diskThreshold a * real_of_int (int (unat (frameMax a)) - int (unat (frameMin a)))"

text \<open>\<open>(unsigned char) lowerThreshold\<close>: truncation, then the low eight bits.\<close>

definition pixelLowerThreshold :: "Aspect \<Rightarrow> pixel" where
  "pixelLowerThreshold a = of_int (trunc (lowerThreshold a))"

text \<open>
  The scan for threshold crossings (lines 785 to 801), from index \<open>k\<close> on: a rising
  edge is stored as \<open>k\<close>, a falling edge as \<open>-(k-1)\<close>. Returns \<open>pixelMax\<close> and
  \<open>edges\<close>.
\<close>

fun scan_edges :: "pixel \<Rightarrow> pixel list \<Rightarrow> int \<Rightarrow> pixel \<Rightarrow> pixel \<Rightarrow> int list \<Rightarrow> pixel \<times> int list" where
  "scan_edges plt [] k lastValue pixelMax edges = (pixelMax, edges)"
| "scan_edges plt (thisValue # rest) k lastValue pixelMax edges =
     scan_edges plt rest (k + 1) thisValue
       (if thisValue > pixelMax then thisValue else pixelMax)
       (if lastValue \<le> plt \<and> thisValue > plt then edges @ [k]
        else if lastValue > plt \<and> thisValue \<le> plt then edges @ [- (k - 1)]
        else edges)"

text \<open>The flags of lines 849 to 863: an edge is flagged when it is within
  \<open>minLimbWidth\<close> of its predecessor or of its successor.\<close>

definition edgeSpread :: "int list \<Rightarrow> nat \<Rightarrow> int" where
  "edgeSpread edges k = \<bar>\<bar>edges ! k\<bar> - \<bar>edges ! (k - 1)\<bar>\<bar>"

definition edgeFlags :: "int \<Rightarrow> int list \<Rightarrow> bool list" where
  "edgeFlags mlw edges =
     map (\<lambda>k. (1 \<le> k \<and> edgeSpread edges k \<le> mlw) \<or>
              (k + 1 < length edges \<and> edgeSpread edges (k + 1) \<le> mlw))
         [0..<length edges]"

text \<open>The erase loop of lines 866 to 874 removes exactly the flagged edges.\<close>

fun erase_flagged :: "int list \<Rightarrow> bool list \<Rightarrow> int list" where
  "erase_flagged (e # es) (f # fs) = (if f then erase_flagged es fs else e # erase_flagged es fs)"
| "erase_flagged es fs = []"

text \<open>
  Lines 803 to 875 after the dimness test: what becomes of \<open>edges\<close>, or \<open>None\<close> for
  the early \<open>return -1\<close>.
\<close>

definition select_edges :: "Aspect \<Rightarrow> int \<Rightarrow> int list \<Rightarrow> int list option" where
  "select_edges a K edges =
     (if length edges \<le> 0 then None
      else if length edges = 1 then
        (if \<bar>edges ! 0\<bar> < 2 * solarRadius a \<and> edges ! 0 < 0 then Some [- 1, - \<bar>edges ! 0\<bar>]
         else if \<bar>edges ! 0\<bar> > K - 2 * solarRadius a \<and> edges ! 0 > 0 then Some [\<bar>edges ! 0\<bar>, - K]
         else None)
      else Some (erase_flagged edges (edgeFlags (minLimbWidth a) edges)))"

text \<open>The window of the linear fit around an edge (lines 892 to 898).\<close>

definition fit_min :: "Aspect \<Rightarrow> int \<Rightarrow> int" where
  "fit_min a edge = (if edge - limbFitWidth a < 0 then 0 else edge - limbFitWidth a)"

definition fit_max :: "Aspect \<Rightarrow> int \<Rightarrow> int \<Rightarrow> int" where
  "fit_max a K edge = (if edge + limbFitWidth a > K then K else edge + limbFitWidth a)"

text \<open>The indices \<open>l\<close> at which the fit loop of line 908 reads the chord.\<close>

definition fit_indices :: "Aspect \<Rightarrow> int \<Rightarrow> int \<Rightarrow> int list" where
  "fit_indices a K edge = [fit_min a edge..fit_max a K edge]"

text \<open>
  The refinement of one real edge (lines 892 to 931): \<open>Inl\<close> the code returned at
  once, or \<open>Inr\<close> the crossing pushed to \<open>crossings\<close> and the slope pushed to
  \<open>slopes\<close>.
\<close>

definition fit_edge :: "Aspect \<Rightarrow> pixel \<Rightarrow> pixel list \<Rightarrow> int \<Rightarrow> int + (flt \<times> flt)" where
  "fit_edge a beyond chord e =
     (let K = int (length chord);
          edge = \<bar>e\<bar>;
          mn = fit_min a edge;
          mx = fit_max a K edge;
          N = mx - mn + 1
      in if N < 2 then Inl (- 1)
         else
           let x = map (\<lambda>l. flt_of_int (l - edge)) (fit_indices a K edge);
               y = map (\<lambda>l. flt_of_int (uint (chord_at beyond chord l))) (fit_indices a K edge);
               fit = LinearFit x y [];
               fittedEdge = fadd (fdiv (fsub (Fin (lowerThreshold a)) (fit ! 0)) (fit ! 1)) (flt_of_int edge)
           in if \<not> isfinite fittedEdge then Inl (- 2)
              else if flt_lt fittedEdge (flt_of_int mn) \<or> flt_gt fittedEdge (flt_of_int mx) then Inl (- 3)
              else Inr (fittedEdge, fabs (fit ! 1)))"

text \<open>One round of the loop of lines 882 to 933, on \<open>(crossings, slopes)\<close>.\<close>

definition refine_step ::
  "Aspect \<Rightarrow> pixel \<Rightarrow> pixel list \<Rightarrow> int list \<Rightarrow> nat \<Rightarrow> flt list \<times> flt list \<Rightarrow> (int \<times> flt list \<times> flt list) + (flt list \<times> flt list)" where
  "refine_step a beyond chord edges k cs =
     (let K = int (length chord) in
      if k = 0 \<and> edges ! k = - 1 then Inr (fst cs @ [Fin (- 1)], snd cs)
      else if k = 1 \<and> edges ! k = - K then Inr (fst cs @ [flt_of_int K], snd cs)
      else (case fit_edge a beyond chord (edges ! k) of
              Inl code \<Rightarrow> Inl (code, fst cs, snd cs)
            | Inr (c, s) \<Rightarrow> Inr (fst cs @ [c], snd cs @ [s])))"

text \<open>
  \<open>Aspect::FindLimbCrossings\<close> (lines 763 to 946). Arguments: the object, the byte
  behind the chord, the chord, and the current values of the reference argument
  \<open>crossings\<close> and of the member \<open>slopes\<close>; result: the returned code and the new
  \<open>crossings\<close> and \<open>slopes\<close>.
\<close>

definition FindLimbCrossings ::
  "Aspect \<Rightarrow> pixel \<Rightarrow> pixel list \<Rightarrow> flt list \<Rightarrow> flt list \<Rightarrow> int \<times> flt list \<times> flt list" where
  "FindLimbCrossings a beyond chord crossings slps =
     (let K = int (length chord);
          first = chord_at beyond chord 0;
          scanned = scan_edges (pixelLowerThreshold a) (tl chord) 1 first first [];
          pixelMax = fst scanned
      in if real (unat pixelMax) < upperThreshold a then (- 1, crossings, slps)
         else (case select_edges a K (snd scanned) of
                 None \<Rightarrow> (- 1, crossings, slps)
               | Some edges \<Rightarrow>
                   if length edges = 2 \<and> edges ! 0 \<ge> - 1 \<and> edges ! 1 < 0 then
                     (case refine_step a beyond chord edges 0 ([], slps) of
                        Inl r \<Rightarrow> r
                      | Inr cs0 \<Rightarrow>
                          (case refine_step a beyond chord edges 1 cs0 of
                             Inl r \<Rightarrow> r
                           | Inr cs1 \<Rightarrow>
                               if length (fst cs1) = 2 then (0, fst cs1, snd cs1)
                               else (- 1, fst cs1, snd cs1)))
                   else (- 1, crossings, slps)))"

subsection \<open>The centre of the Sun: \<open>FindPixelCenter\<close>\<close>

text \<open>\<open>input.row(r)\<close> and \<open>input.col(c)\<close> as chords.\<close>

definition Mat_row :: "Mat \<Rightarrow> nat \<Rightarrow> pixel list" where
  "Mat_row m r = map (pix m r) [0..<cols m]"

definition Mat_col :: "Mat \<Rightarrow> nat \<Rightarrow> pixel list" where
  "Mat_col m c = map (\<lambda>r. pix m r c) [0..<rows m]"

text \<open>The test of lines 189 to 191 and 960 to 962 on a centre.\<close>

definition center_out_of_bounds :: "Aspect \<Rightarrow> Point2f \<Rightarrow> bool" where
  "center_out_of_bounds a p =
     (flt_lt (fst p) (Fin 0) \<or> flt_ge (fst p) (flt_of_int (fst (frameSize a))) \<or>
      flt_lt (snd p) (Fin 0) \<or> flt_ge (snd p) (flt_of_int (snd (frameSize a))) \<or>
      \<not> isfinite (fst p) \<or> \<not> isfinite (snd p))"

text \<open>The chord locations of lines 984 to 997 along an axis of extent \<open>n\<close>.\<close>

definition chord_positions :: "nat \<Rightarrow> int \<Rightarrow> int list" where
  "chord_positions n limit =
     (let step = tdiv (int n) limit;
          start = tdiv step 2
      in map (\<lambda>k. start + int k * step) [0..<nat limit])"

text \<open>
  One chord of the loop of lines 1015 to 1074, on \<open>(limbCrossings, slopes, midpoints)\<close>.
  \<open>dm = 1\<close> takes the row \<open>p\<close> of \<open>input\<close>, \<open>dm = 0\<close> the column \<open>p\<close>;
  \<open>cv::Mat::row\<close> and \<open>cv::Mat::col\<close> assert that the index is in range.
\<close>

definition chord_step ::
  "Aspect \<Rightarrow> (nat \<Rightarrow> int \<Rightarrow> pixel) \<Rightarrow> bool \<Rightarrow> Mat \<Rightarrow> nat \<Rightarrow> int \<Rightarrow>
   CoordList \<times> flt list \<times> flt list \<Rightarrow> fault + (CoordList \<times> flt list \<times> flt list)" where
  "chord_step a beyond search input dm p st =
     (let lc = fst st; mids = snd (snd st) in
      if p < 0 \<or> int (if dm = 1 then rows input else cols input) \<le> p then Inl CvAssertion
      else
        let chord = (if dm = 1 then Mat_row input (nat p) else Mat_col input (nat p));
            r = FindLimbCrossings a (beyond dm p) chord [] (fst (snd st));
            error = fst r;
            crossings = fst (snd r);
            sl = snd (snd r);
            off = (if search then (0, 0) else solarImageOffset a)
        in if error = - 1 then Inr (lc, sl, mids)
           else if error = - 2 then Inr (lc, sl, mids)
           else if error = - 3 then Inr (lc, sl, mids)
           else if length crossings \<noteq> 2 then Inr (lc, sl, mids)
           else if isfinite (crossings ! 0) \<and> isfinite (crossings ! 1) then
             if crossings ! 0 = Fin (- 1) \<and> (if dm = 1 then fst off else snd off) > 0
             then Inr (lc, sl, mids)
             else if crossings ! 1 = flt_of_int (int (if dm = 1 then cols input else rows input)) \<and>
                     (if dm = 1 then fst off + int (cols input) < int (cols (frame a))
                      else snd off + int (rows input) < int (rows (frame a)))
             then Inr (lc, sl, mids)
             else Inr (lc @ (if dm = 1
                             then [(crossings ! 0, flt_of_int p), (crossings ! 1, flt_of_int p)]
                             else [(flt_of_int p, crossings ! 0), (flt_of_int p, crossings ! 1)]),
                       sl,
                       mids @ [fdiv (fadd (crossings ! 0) (crossings ! 1)) (Fin 2)])
           else Inr (lc, sl, mids))"

fun chord_loop ::
  "Aspect \<Rightarrow> (nat \<Rightarrow> int \<Rightarrow> pixel) \<Rightarrow> bool \<Rightarrow> Mat \<Rightarrow> nat \<Rightarrow> int list \<Rightarrow>
   CoordList \<times> flt list \<times> flt list \<Rightarrow> fault + (CoordList \<times> flt list \<times> flt list)" where
  "chord_loop a beyond search input dm [] st = Inr st"
| "chord_loop a beyond search input dm (p # ps) st =
     (case chord_step a beyond search input dm p st of
        Inl f \<Rightarrow> Inl f
      | Inr st' \<Rightarrow> chord_loop a beyond search input dm ps st')"

text \<open>Mean and population standard deviation of the midpoints (lines 1077 to 1089);
  with no midpoint both are 0/0.\<close>

definition mean_std :: "flt list \<Rightarrow> flt \<times> flt" where
  "mean_std midpoints =
     (let M = Fin (real (length midpoints));
          mean = fdiv (fsum midpoints) M;
          std = fsqrt (fdiv (fsum (map (\<lambda>m. fmul (fsub m mean) (fsub m mean)) midpoints)) M)
      in (mean, std))"

definition translate :: "Point2i \<Rightarrow> Point2f \<Rightarrow> Point2f" where
  "translate off p = (fadd (fst p) (flt_of_int (fst off)), fadd (snd p) (flt_of_int (snd off)))"

text \<open>
  \<open>Aspect::FindPixelCenter\<close> (lines 948 to 1124). \<open>beyond dm p\<close> is the byte behind
  the chord at location \<open>p\<close> of dimension \<open>dm\<close>. The division \<open>input.rows/limit\<close>
  traps when the configured number of chords is 0.
\<close>

definition FindPixelCenter :: "(nat \<Rightarrow> int \<Rightarrow> pixel) \<Rightarrow> Aspect \<Rightarrow> fault + Aspect" where
  "FindPixelCenter beyond a =
     (let search = (center_out_of_bounds a (pixelCenter a) \<or> Mat_empty (solarImage a));
          input = (if search then frame a else solarImage a);
          limit = (if search then initialNumChords a else chordsPerAxis a)
      in if limit = 0 then Inl DivideByZero
         else
           (case chord_loop a beyond search input 0 (chord_positions (cols input) limit) ([], [], []) of
              Inl f \<Rightarrow> Inl f
            | Inr st0 \<Rightarrow>
                (case chord_loop a beyond search input 1 (chord_positions (rows input) limit)
                        (fst st0, fst (snd st0), []) of
                   Inl f \<Rightarrow> Inl f
                 | Inr st1 \<Rightarrow>
                     let ms0 = mean_std (snd (snd st0));
                         ms1 = mean_std (snd (snd st1));
                         center = (fst ms1, fst ms0);
                         err = (snd ms1, snd ms0)
                     in Inr (if search
                             then a\<lparr>pixelCenter := center, pixelError := err,
                                    limbCrossings := fst st1, slopes := fst (snd st1)\<rparr>
                             else a\<lparr>pixelCenter := translate (solarImageOffset a) center,
                                    pixelError := err,
                                    limbCrossings := map (translate (solarImageOffset a)) (fst st1),
                                    slopes := fst (snd st1)\<rparr>))))"

subsection \<open>Fiducial identification: \<open>Mode\<close> and \<open>FindFiducialIDs\<close>\<close>

text \<open>
  \<open>Mode\<close> (lines 1722 to 1745): the \<open>std::map\<close> is walked in ascending key order,
  keeping the keys of the highest count.
\<close>

definition Mode :: "int list \<Rightarrow> int list" where
  "Mode data =
     snd (foldl (\<lambda>cm key.
                   let c = count_list data key in
                   if c > fst cm then (c, [key])
                   else if c = fst cm then (fst cm, snd cm @ [key])
                   else cm)
                (0, []) (sort (remdups data)))"

text \<open>\<open>rotate\<close> (lines 1747 to 1756).\<close>

definition rotate2f :: "real \<Rightarrow> Point2f \<Rightarrow> Point2f" where
  "rotate2f angle point =
     (let c = Fin (cos (2 * pi * angle / 360));
          s = Fin (sin (2 * pi * angle / 360))
      in (fsub (fmul c (fst point)) (fmul s (snd point)),
          fadd (fmul s (fst point)) (fmul c (snd point))))"

text \<open>The two tests of lines 1297 to 1305 on the fiducials \<open>pk\<close> and \<open>pl\<close>.\<close>

definition is_colPair :: "Aspect \<Rightarrow> Point2f \<Rightarrow> Point2f \<Rightarrow> bool" where
  "is_colPair a pk pl =
     (let rowDiff = fsub (snd pk) (snd pl);
          colDiff = fsub (fst pk) (fst pl)
      in flt_lt (fabs (fsub (fabs rowDiff) (Fin (fiducialSpacing a)))) (Fin (fiducialSpacingTol a)) \<and>
         flt_gt (fabs colDiff) (Fin (nDistances a ! 7 - fiducialSpacingTol a)) \<and>
         flt_lt (fabs colDiff) (Fin (nDistances a ! 0 + fiducialSpacingTol a)))"

definition is_rowPair :: "Aspect \<Rightarrow> Point2f \<Rightarrow> Point2f \<Rightarrow> bool" where
  "is_rowPair a pk pl =
     (let rowDiff = fsub (snd pk) (snd pl);
          colDiff = fsub (fst pk) (fst pl)
      in flt_lt (fabs (fsub (fabs colDiff) (Fin (fiducialSpacing a)))) (Fin (fiducialSpacingTol a)) \<and>
         flt_gt (fabs rowDiff) (Fin (mDistances a ! 7 - fiducialSpacingTol a)) \<and>
         flt_lt (fabs rowDiff) (Fin (mDistances a ! 0 + fiducialSpacingTol a)))"

text \<open>The index pairs \<open>(k, l)\<close>, \<open>k < l < K\<close>, in the order of the loops of lines 1290
  to 1292.\<close>

definition all_pairs :: "nat \<Rightarrow> (nat \<times> nat) list" where
  "all_pairs K = concat (map (\<lambda>k. map (\<lambda>l. (k, l)) [k + 1..<K]) [0..<K])"

definition find_colPairs :: "Aspect \<Rightarrow> CoordList \<Rightarrow> IndexList" where
  "find_colPairs a rot =
     map (\<lambda>kl. (int (fst kl), int (snd kl)))
       (filter (\<lambda>kl. is_colPair a (rot ! fst kl) (rot ! snd kl)) (all_pairs (length rot)))"

definition find_rowPairs :: "Aspect \<Rightarrow> CoordList \<Rightarrow> IndexList" where
  "find_rowPairs a rot =
     map (\<lambda>kl. (int (fst kl), int (snd kl)))
       (filter (\<lambda>kl. \<not> is_colPair a (rot ! fst kl) (rot ! snd kl) \<and>
                      is_rowPair a (rot ! fst kl) (rot ! snd kl)) (all_pairs (length rot)))"

text \<open>\<open>votes[i].push_back(v)\<close>.\<close>

definition push_vote :: "int list list \<Rightarrow> int \<Rightarrow> int \<Rightarrow> int list list" where
  "push_vote votes i v = votes[nat i := votes ! nat i @ [v]]"

text \<open>First pass, row pairs (lines 1315 to 1337) and column pairs (lines 1341 to
  1362). The unsigned \<open>d-7\<close> stored into an \<open>int\<close> is the integer \<open>d - 7\<close>.\<close>

definition first_rowVotes :: "Aspect \<Rightarrow> CoordList \<Rightarrow> IndexList \<Rightarrow> int list list" where
  "first_rowVotes a rot rps =
     foldl (\<lambda>votes p.
              let rowDiff = fsub (snd (rot ! nat (snd p))) (snd (rot ! nat (fst p))) in
              foldl (\<lambda>votes d.
                       if flt_lt (fabs (fsub (fabs rowDiff) (Fin (mDistances a ! d)))) (Fin (fiducialSpacingTol a))
                       then (if flt_gt rowDiff (Fin 0)
                             then push_vote (push_vote votes (fst p) (int d - 7)) (snd p) (int d + 1 - 7)
                             else push_vote (push_vote votes (fst p) (int d + 1 - 7)) (snd p) (int d - 7))
                       else votes)
                    votes [0..<length (mDistances a)])
           (replicate (length rot) []) rps"

definition first_colVotes :: "Aspect \<Rightarrow> CoordList \<Rightarrow> IndexList \<Rightarrow> int list list" where
  "first_colVotes a rot cps =
     foldl (\<lambda>votes p.
              let colDiff = fsub (fst (rot ! nat (fst p))) (fst (rot ! nat (snd p))) in
              foldl (\<lambda>votes d.
                       if flt_lt (fabs (fsub (fabs colDiff) (Fin (nDistances a ! d)))) (Fin (fiducialSpacingTol a))
                       then (if flt_gt colDiff (Fin 0)
                             then push_vote (push_vote votes (fst p) (int d - 7)) (snd p) (int d + 1 - 7)
                             else push_vote (push_vote votes (fst p) (int d + 1 - 7)) (snd p) (int d - 7))
                       else votes)
                    votes [0..<length (nDistances a)])
           (replicate (length rot) []) cps"

text \<open>The tally of the first pass (lines 1366 to 1395), for one bag of votes.\<close>

definition tally_first :: "int list \<Rightarrow> int" where
  "tally_first votes =
     (let modes = Mode votes in
      if length modes > 1 then - 200
      else if length modes = 1 then modes ! 0
      else - 100)"

text \<open>
  Second pass (lines 1397 to 1463): one row pair, and one column pair, on
  \<open>(rowVotes, colVotes)\<close>. \<open>ids\<close> are the identifiers of the first pass.
\<close>

definition second_rowPair ::
  "CoordList \<Rightarrow> IndexList \<Rightarrow> int list list \<times> int list list \<Rightarrow> Point2i \<Rightarrow> int list list \<times> int list list" where
  "second_rowPair rot ids rc p =
     (let px = ids ! nat (fst p);
          py = ids ! nat (snd p);
          rowDiff = fsub (snd (rot ! nat (snd p))) (snd (rot ! nat (fst p)));
          colVotes =
            (if fst px = - 100 \<and> fst py \<noteq> - 100 then push_vote (snd rc) (fst p) (fst py)
             else if fst px \<noteq> - 100 \<and> fst py = - 100 then push_vote (snd rc) (snd p) (fst px)
             else snd rc);
          rowVotes =
            (if snd px = - 100 \<and> snd py \<noteq> - 100 then
               (if flt_ge rowDiff (Fin 0) then push_vote (fst rc) (fst p) (snd py - 1)
                else push_vote (fst rc) (fst p) (snd py + 1))
             else if snd px \<noteq> - 100 \<and> snd py = - 100 then
               (if flt_ge rowDiff (Fin 0) then push_vote (fst rc) (snd p) (snd px + 1)
                else push_vote (fst rc) (snd p) (snd px - 1))
             else fst rc)
      in (rowVotes, colVotes))"

definition second_colPair ::
  "CoordList \<Rightarrow> IndexList \<Rightarrow> int list list \<times> int list list \<Rightarrow> Point2i \<Rightarrow> int list list \<times> int list list" where
  "second_colPair rot ids rc p =
     (let px = ids ! nat (fst p);
          py = ids ! nat (snd p);
          colDiff = fsub (fst (rot ! nat (fst p))) (fst (rot ! nat (snd p)));
          rowVotes =
            (if snd px = - 100 \<and> snd py \<noteq> - 100 then push_vote (fst rc) (fst p) (snd py)
             else if snd px \<noteq> - 100 \<and> snd py = - 100 then push_vote (fst rc) (snd p) (snd px)
             else fst rc);
          colVotes =
            (if fst px = - 100 \<and> fst py \<noteq> - 100 then
               (if flt_ge colDiff (Fin 0) then push_vote (snd rc) (fst p) (fst py - 1)
                else push_vote (snd rc) (fst p) (fst py + 1))
             else if fst px \<noteq> - 100 \<and> fst py = - 100 then
               (if flt_ge colDiff (Fin 0) then push_vote (snd rc) (snd p) (fst px + 1)
                else push_vote (snd rc) (snd p) (fst px - 1))
             else snd rc)
      in (rowVotes, colVotes))"

text \<open>The votes of the whole second pass: \<open>(rowVotes, colVotes)\<close> before the tally of
  line 1466.\<close>

definition second_pass_votes ::
  "CoordList \<Rightarrow> IndexList \<Rightarrow> IndexList \<Rightarrow> IndexList \<Rightarrow> int list list \<times> int list list" where
  "second_pass_votes rot ids rps cps =
     foldl (second_colPair rot ids)
       (foldl (second_rowPair rot ids) (replicate (length rot) [], replicate (length rot) []) rps)
       cps"

text \<open>The tally of the second pass (lines 1466 to 1487): an empty bag keeps the
  identifier of the first pass.\<close>

definition tally_second :: "int \<Rightarrow> int list \<Rightarrow> int" where
  "tally_second cur votes =
     (let modes = Mode votes in
      if length modes > 1 then - 200
      else if length modes = 1 then modes ! 0
      else cur)"

definition first_pass_ids :: "Aspect \<Rightarrow> CoordList \<Rightarrow> IndexList \<Rightarrow> IndexList \<Rightarrow> IndexList" where
  "first_pass_ids a rot rps cps =
     map (\<lambda>k. (tally_first (first_colVotes a rot cps ! k), tally_first (first_rowVotes a rot rps ! k)))
       [0..<length rot]"

text \<open>\<open>Aspect::FindFiducialIDs\<close> (lines 1267 to 1488).\<close>

definition FindFiducialIDs :: "Aspect \<Rightarrow> Aspect" where
  "FindFiducialIDs a =
     (let rotatedFiducials = map (rotate2f (fiducialTwist a)) (pixelFiducials a);
          cps = find_colPairs a rotatedFiducials;
          rps = find_rowPairs a rotatedFiducials;
          ids = first_pass_ids a rotatedFiducials rps cps;
          votes = second_pass_votes rotatedFiducials ids rps cps
      in a\<lparr>rowPairs := rps, colPairs := cps,
            fiducialIDs :=
              map (\<lambda>k. (tally_second (fst (ids ! k)) (snd votes ! k),
                        tally_second (snd (ids ! k)) (fst votes ! k)))
                [0..<length (pixelFiducials a)]\<rparr>)"

subsection \<open>The mapping: \<open>FindMapping\<close>\<close>

text \<open>\<open>fiducialIDtoScreen\<close> (lines 20 to 28).\<close>

definition fiducialIDtoScreen :: "Point2i \<Rightarrow> Point2f" where
  "fiducialIDtoScreen fid =
     (let x = fst fid; y = snd fid in
      (flt_of_int (6 * ((if x \<ge> 0 then 45 * x + 3 * x * (x - 1) else 48 * x - 3 * x * (x + 1)) - 15 * y)),
       flt_of_int (6 * ((if y \<ge> 0 then 45 * y + 3 * y * (y - 1) else 48 * y - 3 * y * (y + 1)) + 15 * x))))"

text \<open>The test of lines 271 and 1503 that skips a fiducial.\<close>

definition skipped_ID :: "Point2i \<Rightarrow> bool" where
  "skipped_ID fid = (fst fid < - 10 \<or> snd fid < - 10)"

text \<open>
  The vectors \<open>x\<close> and \<open>y\<close> that the loop of lines 1501 to 1516 hands to
  \<open>LinearFit\<close> for dimension \<open>dm\<close>. \<open>FindFiducialIDs\<close> has given
  \<open>fiducialIDs\<close> the length of \<open>pixelFiducials\<close>.
\<close>

definition mapping_points :: "Aspect \<Rightarrow> nat \<Rightarrow> flt list \<times> flt list" where
  "mapping_points a dm =
     (let kept = filter (\<lambda>q. \<not> skipped_ID (snd q)) (zip (pixelFiducials a) (fiducialIDs a)) in
      (map (\<lambda>q. if dm = 0 then fst (fst q) else snd (fst q)) kept,
       map (\<lambda>q. if dm = 0 then fst (fiducialIDtoScreen (snd q)) else snd (fiducialIDtoScreen (snd q))) kept))"

text \<open>\<open>Aspect::FindMapping\<close> (lines 1490 to 1521).\<close>

definition FindMapping :: "Aspect \<Rightarrow> Aspect" where
  "FindMapping a =
     (let fit0 = LinearFit (fst (mapping_points a 0)) (snd (mapping_points a 0)) [];
          fit1 = LinearFit (fst (mapping_points a 1)) (snd (mapping_points a 1)) fit0
      in a\<lparr>mapping := [fit0 ! 0, fit0 ! 1, fit1 ! 0, fit1 ! 1]\<rparr>)"

text \<open>The count of lines 269 to 273.\<close>

definition count_validIDs :: "IndexList \<Rightarrow> int" where
  "count_validIDs ids = int (length (filter (\<lambda>fid. \<not> skipped_ID fid) ids))"

subsection \<open>The pipeline: \<open>Run\<close>\<close>

text \<open>\<open>SafeRange\<close> (lines 1540 to 1546): \<open>(start, end)\<close>.\<close>

definition SafeRange :: "int \<Rightarrow> int \<Rightarrow> int \<Rightarrow> int \<times> int" where
  "SafeRange start stop sz = ((if start > 0 then start else 0), (if stop < sz then stop else sz))"

text \<open>\<open>frame(rowRange, colRange)\<close>: OpenCV asserts
  \<open>0 <= start <= end <= size\<close> on both ranges.\<close>

definition Mat_sub :: "Mat \<Rightarrow> int \<times> int \<Rightarrow> int \<times> int \<Rightarrow> fault + Mat" where
  "Mat_sub m rowRange colRange =
     (if 0 \<le> fst rowRange \<and> fst rowRange \<le> snd rowRange \<and> snd rowRange \<le> int (rows m) \<and>
         0 \<le> fst colRange \<and> fst colRange \<le> snd colRange \<and> snd colRange \<le> int (cols m)
      then Inr \<lparr>rows = nat (snd rowRange - fst rowRange), cols = nat (snd colRange - fst colRange),
                pix = (\<lambda>r c. pix m (nat (fst rowRange) + r) (nat (fst colRange) + c))\<rparr>
      else Inl CvAssertion)"

text \<open>
  \<open>Aspect::FindPixelFiducials\<close> (lines 1126 to 1265) correlates the sub-image with the
  kernel through OpenCV's \<open>matchTemplate\<close> and \<open>meanStdDev\<close> in floating point, and
  writes \<open>pixelFiducials\<close> only. The pipeline takes it as the parameter \<open>fpf\<close>:
  \<open>fpf a\<close> is the list a call on the object \<open>a\<close> leaves in \<open>pixelFiducials\<close>.

  \<open>Run\<close> is split at its gates. Lines 265 to 299:
\<close>

definition Run_ids :: "Aspect \<Rightarrow> Aspect" where
  "Run_ids a0 =
     (let a = FindFiducialIDs a0;
          validIDs = count_validIDs (fiducialIDs a)
      in if validIDs = 0 then a\<lparr>state := NO_IDS\<rparr>
         else if validIDs < 3 then a\<lparr>state := FEW_IDS\<rparr>
         else (FindMapping a)\<lparr>state := NO_ERROR\<rparr>)"

text \<open>Lines 249 to 263.\<close>

definition Run_fiducials :: "(Aspect \<Rightarrow> CoordList) \<Rightarrow> Aspect \<Rightarrow> Aspect" where
  "Run_fiducials fpf a0 =
     (let a = a0\<lparr>pixelFiducials := fpf a0\<rparr> in
      if length (pixelFiducials a) = 0 then a\<lparr>state := NO_FIDUCIALS\<rparr>
      else if length (pixelFiducials a) < 3 then a\<lparr>state := FEW_FIDUCIALS\<rparr>
      else Run_ids a)"

text \<open>Lines 207 to 247: the solar sub-image.\<close>

definition Run_solar :: "(Aspect \<Rightarrow> CoordList) \<Rightarrow> Aspect \<Rightarrow> fault + Aspect" where
  "Run_solar fpf a0 =
     (let subimageSize = trunc (real_of_int (solarRadius a0) * (1 + radiusMargin a0));
          cx = the_real (fst (pixelCenter a0));
          cy = the_real (snd (pixelCenter a0));
          rowRange = SafeRange (trunc (cy - real_of_int subimageSize)) (trunc (cy + real_of_int subimageSize))
                       (snd (frameSize a0));
          colRange = SafeRange (trunc (cx - real_of_int subimageSize)) (trunc (cx + real_of_int subimageSize))
                       (fst (frameSize a0))
      in case Mat_sub (frame a0) rowRange colRange of
           Inl f \<Rightarrow> Inl f
         | Inr sub \<Rightarrow>
             let a = a0\<lparr>solarImage := sub\<rparr> in
             if Mat_empty (solarImage a) then Inr (a\<lparr>state := SOLAR_IMAGE_EMPTY\<rparr>)
             else
               let a = a\<lparr>solarImageSize := (int (cols (solarImage a)), int (rows (solarImage a)))\<rparr> in
               if fst (solarImageSize a) < trunc (fiducialSpacing a) + 2 * fiducialLength a \<or>
                  snd (solarImageSize a) < trunc (fiducialSpacing a) + 2 * fiducialLength a
               then Inr (a\<lparr>state := SOLAR_IMAGE_SMALL\<rparr>)
               else
                 let a = a\<lparr>solarImageOffset := (fst colRange, fst rowRange)\<rparr> in
                 if fst (solarImageOffset a) < 0 \<or>
                    fst (solarImageOffset a) \<ge> fst (frameSize a) - fst (solarImageSize a) + 1 \<or>
                    snd (solarImageOffset a) < 0 \<or>
                    snd (solarImageOffset a) \<ge> snd (frameSize a) - snd (solarImageSize a) + 1
                 then Inr (a\<lparr>state := SOLAR_IMAGE_OFFSET_OUT_OF_BOUNDS\<rparr>)
                 else Inr (Run_fiducials fpf a))"

text \<open>Lines 172 to 205: the centre and its gates.\<close>

definition Run_center :: "(Aspect \<Rightarrow> CoordList) \<Rightarrow> (nat \<Rightarrow> int \<Rightarrow> pixel) \<Rightarrow> Aspect \<Rightarrow> fault + Aspect" where
  "Run_center fpf beyond a0 =
     (case FindPixelCenter beyond a0 of
        Inl f \<Rightarrow> Inl f
      | Inr a \<Rightarrow>
          if length (limbCrossings a) = 0
          then Inr (a\<lparr>state := NO_LIMB_CROSSINGS, pixelCenter := (Fin (- 1), Fin (- 1))\<rparr>)
          else if length (limbCrossings a) < 4
          then Inr (a\<lparr>state := FEW_LIMB_CROSSINGS, pixelCenter := (Fin (- 1), Fin (- 1))\<rparr>)
          else if center_out_of_bounds a (pixelCenter a)
          then Inr (a\<lparr>pixelCenter := (Fin (- 1), Fin (- 1)), state := CENTER_OUT_OF_BOUNDS\<rparr>)
          else if flt_gt (fst (pixelError a)) (Fin (errorLimit a)) \<or>
                  flt_gt (snd (pixelError a)) (Fin (errorLimit a)) \<or>
                  \<not> isfinite (fst (pixelError a)) \<or> \<not> isfinite (snd (pixelError a))
          then Inr (a\<lparr>pixelCenter := (Fin (- 1), Fin (- 1)), state := CENTER_ERROR_LARGE\<rparr>)
          else Run_solar fpf a)"

text \<open>Lines 137 to 145: the outputs of the previous frame are dropped.\<close>

definition clear_outputs :: "Aspect \<Rightarrow> Aspect" where
  "clear_outputs a =
     a\<lparr>limbCrossings := [], slopes := [], pixelFiducials := [], fiducialIDs := [],
       mapping := replicate 4 (Fin 0), conditionNumbers := replicate 2 (Fin 0)\<rparr>"

text \<open>
  \<open>Aspect::Run\<close> (lines 133 to 300). \<open>std::isnan\<close> of an \<open>unsigned char\<close> is
  false. A \<open>calcMinMax\<close> that does not return is the fault \<open>NoReturn\<close>.
\<close>

definition Run :: "(Aspect \<Rightarrow> CoordList) \<Rightarrow> (nat \<Rightarrow> int \<Rightarrow> pixel) \<Rightarrow> Aspect \<Rightarrow> fault + Aspect" where
  "Run fpf beyond a0 =
     (let a = clear_outputs a0
      in if state a = FRAME_EMPTY then Inr (a\<lparr>state := FRAME_EMPTY\<rparr>)
         else
           (case calcMinMax (frame a) of
              None \<Rightarrow> Inl NoReturn
            | Some mm \<Rightarrow>
                let a = a\<lparr>frameMin := fst mm, frameMax := snd mm\<rparr> in
                if fst mm \<ge> snd mm then Inr (a\<lparr>state := MIN_MAX_BAD\<rparr>)
                else if int (unat (snd mm)) - int (unat (fst mm)) < 32 then Inr (a\<lparr>state := DYNAMIC_RANGE_LOW\<rparr>)
                else Run_center fpf beyond a))"

subsection \<open>Auxiliary notions for the proofs\<close>

text \<open>The members \<open>FindLimbCrossings\<close> reads.\<close>

definition limb_config :: "Aspect \<Rightarrow> pixel \<times> pixel \<times> real \<times> real \<times> int \<times> int \<times> int" where
  "limb_config a = (frameMin a, frameMax a, limbThreshold a, diskThreshold a, solarRadius a,
                    minLimbWidth a, limbFitWidth a)"

text \<open>What \<open>FindPixelCenter\<close> computes when it searches the whole frame:
  \<open>(pixelCenter, pixelError, limbCrossings, slopes)\<close>.\<close>

definition search_result ::
  "(nat \<Rightarrow> int \<Rightarrow> pixel) \<Rightarrow> Aspect \<Rightarrow> fault + (Point2f \<times> Point2f \<times> CoordList \<times> flt list)" where
  "search_result beyond a =
     (if initialNumChords a = 0 then Inl DivideByZero
      else
        (case chord_loop a beyond True (frame a) 0
                (chord_positions (cols (frame a)) (initialNumChords a)) ([], [], []) of
           Inl f \<Rightarrow> Inl f
         | Inr st0 \<Rightarrow>
             (case chord_loop a beyond True (frame a) 1
                     (chord_positions (rows (frame a)) (initialNumChords a)) (fst st0, fst (snd st0), []) of
                Inl f \<Rightarrow> Inl f
              | Inr st1 \<Rightarrow>
                  Inr ((fst (mean_std (snd (snd st1))), fst (mean_std (snd (snd st0)))),
                       (snd (mean_std (snd (snd st1))), snd (mean_std (snd (snd st0)))),
                       fst st1, fst (snd st1)))))"

subsection \<open>Example frames\<close>

text \<open>A frame of one row with the pixels 0, 10, 10.\<close>

definition frame_low :: Mat where
  "frame_low = \<lparr>rows = 1, cols = 3, pix = (\<lambda>r c. if c = 0 then 0 else 10)\<rparr>"

text \<open>A frame of 6 by 6 pixels: the Sun (200) covers the corner of three rows and three
  columns at the origin, the sky (10) the rest.\<close>

definition frame_corner :: Mat where
  "frame_corner = \<lparr>rows = 6, cols = 6, pix = (\<lambda>r c. if r < 3 \<and> c < 3 then 200 else 10)\<rparr>"

text \<open>A \<open>FindPixelFiducials\<close> that finds no fiducial, for runs that return before the
  fiducial stage.\<close>

definition no_fiducials :: "Aspect \<Rightarrow> CoordList" where
  "no_fiducials a = []"

text \<open>Two contents of the memory behind the chords: every byte 0, and every byte 255.\<close>

definition zero_beyond :: "nat \<Rightarrow> int \<Rightarrow> pixel" where
  "zero_beyond dm p = 0"

definition full_beyond :: "nat \<Rightarrow> int \<Rightarrow> pixel" where
  "full_beyond dm p = 255"

text \<open>The default object with the robust minimum and maximum of \<open>frame_corner\<close>.\<close>

definition corner_ref :: Aspect where
  "corner_ref = Aspect_new\<lparr>frameMin := 10, frameMax := 200\<rparr>"

text \<open>The limb crossings of \<open>frame_corner\<close> with \<open>n\<close> chords on each axis, all on
  row 0 and column 0 (the chord step \<open>6/n\<close> is 0 from 7 chords on).\<close>

definition corner_crossings :: "nat \<Rightarrow> CoordList" where
  "corner_crossings n =
     concat (replicate n [(Fin 0, Fin (- 1)), (Fin 0, Fin (19 / 6))]) @
     concat (replicate n [(Fin (- 1), Fin 0), (Fin (19 / 6), Fin 0)])"

definition corner_loaded :: Aspect where
  "corner_loaded = LoadFrame Aspect_new frame_corner"

definition corner_sub :: Mat where
  "corner_sub = \<lparr>rows = 6, cols = 6, pix = (\<lambda>r c. pix frame_corner (nat 0 + r) (nat 0 + c))\<rparr>"

text \<open>The object \<open>a\<close> after the centre stage has run on \<open>frame_corner\<close> with \<open>n\<close>
  chords on each axis.\<close>

definition corner_centered :: "Aspect \<Rightarrow> nat \<Rightarrow> Aspect" where
  "corner_centered a n =
     (clear_outputs a)\<lparr>frameMin := 10, frameMax := 200,
        pixelCenter := (Fin (13 / 12), Fin (13 / 12)), pixelError := (Fin 0, Fin 0),
        limbCrossings := corner_crossings n, slopes := replicate (2 * n) (Fin 57)\<rparr>"

text \<open>The objects after a first and after a second \<open>Run\<close> on \<open>frame_corner\<close>.\<close>

definition corner_first :: Aspect where
  "corner_first = (corner_centered corner_loaded 30)\<lparr>solarImage := corner_sub, solarImageSize := (6, 6),
                                state := SOLAR_IMAGE_SMALL\<rparr>"

definition corner_second :: Aspect where
  "corner_second = (corner_centered corner_first 10)\<lparr>solarImage := corner_sub, solarImageSize := (6, 6),
                                state := SOLAR_IMAGE_SMALL\<rparr>"

text \<open>The fresh object after \<open>frame_low\<close> is loaded and \<open>Run\<close>.\<close>

definition low_first :: Aspect where
  "low_first = (clear_outputs (LoadFrame Aspect_new frame_low))\<lparr>frameMin := 0, frameMax := 10,
       state := DYNAMIC_RANGE_LOW\<rparr>"

text \<open>The gates of lines 174 to 205 as one function: the failing state, if any.\<close>

definition center_gate :: "Aspect \<Rightarrow> AspectCode option" where
  "center_gate a =
     (if length (limbCrossings a) = 0 then Some NO_LIMB_CROSSINGS
      else if length (limbCrossings a) < 4 then Some FEW_LIMB_CROSSINGS
      else if center_out_of_bounds a (pixelCenter a) then Some CENTER_OUT_OF_BOUNDS
      else if flt_gt (fst (pixelError a)) (Fin (errorLimit a)) \<or>
              flt_gt (snd (pixelError a)) (Fin (errorLimit a)) \<or>
              \<not> isfinite (fst (pixelError a)) \<or> \<not> isfinite (snd (pixelError a))
      then Some CENTER_ERROR_LARGE
      else None)"

text \<open>
  Two consecutive calls of \<open>Run\<close> on the same object. The memory behind the chords is
  not part of the object: the first call reads \<open>beyond1\<close> there and the second
  \<open>beyond2\<close>.
\<close>

definition Run_twice ::
  "(Aspect \<Rightarrow> CoordList) \<Rightarrow> (nat \<Rightarrow> int \<Rightarrow> pixel) \<Rightarrow> (nat \<Rightarrow> int \<Rightarrow> pixel) \<Rightarrow> Aspect \<Rightarrow> fault + Aspect" where
  "Run_twice fpf beyond1 beyond2 a =
     (case Run fpf beyond1 a of Inl f \<Rightarrow> Inl f | Inr b \<Rightarrow> Run fpf beyond2 b)"

text \<open>
  The test of lines 960 to 962: \<open>FindPixelCenter\<close> searches the whole frame when the
  previous centre is not inside the frame or there is no sub-image, and otherwise works
  on the sub-image of the previous \<open>Run\<close>.
\<close>

definition searching :: "Aspect \<Rightarrow> bool" where
  "searching a = (center_out_of_bounds a (pixelCenter a) \<or> Mat_empty (solarImage a))"

text \<open>
  The hint \<open>Run\<close> takes from the previous call is the same in the objects \<open>a\<close> and
  \<open>b\<close>: both make \<open>FindPixelCenter\<close> search the whole frame, or both make it work
  on the same sub-image at the same offset.
\<close>

definition same_hint :: "Aspect \<Rightarrow> Aspect \<Rightarrow> bool" where
  "same_hint a b =
     (if searching a then searching b
      else \<not> searching b \<and> solarImage b = solarImage a \<and> solarImageOffset b = solarImageOffset a)"

text \<open>
  The members \<open>FindPixelFiducials\<close> reads (lines 1139 to 1255), the kernel of the
  constructor apart; a detector \<open>fpf\<close> that reads nothing else.
\<close>

definition fiducial_inputs :: "Aspect \<Rightarrow> Mat \<times> Point2i \<times> pixel \<times> real \<times> int \<times> int \<times> int" where
  "fiducial_inputs a = (solarImage a, solarImageOffset a, frameMax a, fiducialThreshold a,
                        fiducialLength a, fiducialWidth a, numFiducials a)"

definition reads_fiducial_inputs :: "(Aspect \<Rightarrow> CoordList) \<Rightarrow> bool" where
  "reads_fiducial_inputs fpf = (\<forall>x y. fiducial_inputs x = fiducial_inputs y \<longrightarrow> fpf x = fpf y)"

text \<open>The members no stage after \<open>calcMinMax\<close> writes.\<close>

definition settings ::
  "Aspect \<Rightarrow> (Mat \<times> (int \<times> int) \<times> pixel \<times> pixel \<times> int \<times> int \<times> real \<times> real) \<times>
             (int \<times> real \<times> real \<times> int \<times> int \<times> int \<times> real \<times> int) \<times>
             (int \<times> real \<times> real \<times> real \<times> real list \<times> real list \<times> flt list)" where
  "settings a =
     ((frame a, frameSize a, frameMin a, frameMax a, initialNumChords a, chordsPerAxis a,
       limbThreshold a, diskThreshold a),
      (solarRadius a, radiusMargin a, errorLimit a, limbFitWidth a, fiducialLength a,
       fiducialWidth a, fiducialThreshold a, minLimbWidth a),
      (numFiducials a, fiducialSpacing a, fiducialSpacingTol a, fiducialTwist a, mDistances a,
       nDistances a, conditionNumbers a))"

text \<open>The members \<open>FindFiducialIDs\<close> reads besides \<open>pixelFiducials\<close>.\<close>

definition id_config :: "Aspect \<Rightarrow> real \<times> real \<times> real list \<times> real list \<times> real" where
  "id_config a = (fiducialSpacing a, fiducialSpacingTol a, mDistances a, nDistances a, fiducialTwist a)"

text \<open>A frame of 3 by 3 pixels, bright (100) in its four corners only, loaded into an
  object that searches with one chord per axis: the chords, row 1 and column 1, are
  dark.\<close>

definition frame_cross :: Mat where
  "frame_cross = \<lparr>rows = 3, cols = 3, pix = (\<lambda>r c. if r \<noteq> 1 \<and> c \<noteq> 1 then 100 else 0)\<rparr>"

definition cross_loaded :: Aspect where
  "cross_loaded = LoadFrame (SetInteger Aspect_new NUM_CHORDS_SEARCHING 1) frame_cross"

text \<open>A frame of one row, bright (200) but for its last pixel, loaded into an object that
  searches with one chord per axis: the fit window of the falling edge ends one past the
  end of the row.\<close>

definition frame_edge :: Mat where
  "frame_edge = \<lparr>rows = 1, cols = 6, pix = (\<lambda>r c. if c < 5 then 200 else 0)\<rparr>"

definition edge_loaded :: Aspect where
  "edge_loaded = LoadFrame (SetInteger Aspect_new NUM_CHORDS_SEARCHING 1) frame_edge"



text \<open>The default object with robust minimum 0 and maximum 200.\<close>

definition dark_ref :: Aspect where
  "dark_ref = Aspect_new\<lparr>frameMin := 0, frameMax := 200\<rparr>"

section \<open>Properties\<close>

subsection \<open>Evaluation\<close>

declare calcMinMax_loop.simps [code]

lemma rotate2f_code [code]:
  "rotate2f angle point =
     (if angle = 0 then (fsub (fmul (Fin 1) (fst point)) (fmul (Fin 0) (snd point)),
                         fadd (fmul (Fin 0) (fst point)) (fmul (Fin 1) (snd point)))
      else Code.abort (STR ''rotate'') (\<lambda>_. rotate2f angle point))"
  by (auto simp add: rotate2f_def Let_def)

lemma fsqrt_code [code]:
  "fsqrt (Fin x) = (if x < 0 then NonFin else if x = 0 then Fin 0 else Code.abort (STR ''sqrt'') (\<lambda>_. fsqrt (Fin x)))"
  "fsqrt NonFin = NonFin"
  by simp_all

subsection \<open>What each stage of \<open>Run\<close> writes\<close>

lemma FindPixelCenter_keeps:
  assumes "FindPixelCenter beyond a = Inr b"
  shows "state b = state a \<and> frameSize b = frameSize a \<and> frame b = frame a \<and> mapping b = mapping a \<and>
         pixelFiducials b = pixelFiducials a \<and> fiducialIDs b = fiducialIDs a"
  using assms unfolding FindPixelCenter_def Let_def
  by (auto split: if_splits sum.splits)

lemma Run_ids_facts:
  "pixelFiducials (Run_ids a) = pixelFiducials a \<and>
   length (fiducialIDs (Run_ids a)) = length (pixelFiducials a) \<and>
   pixelCenter (Run_ids a) = pixelCenter a \<and>
   limbCrossings (Run_ids a) = limbCrossings a \<and>
   frameSize (Run_ids a) = frameSize a \<and>
   (length (mapping a) = 4 \<longrightarrow> length (mapping (Run_ids a)) = 4) \<and>
   state (Run_ids a) \<in> {NO_IDS, FEW_IDS, NO_ERROR}"
  by (simp add: Run_ids_def FindFiducialIDs_def FindMapping_def Let_def)

lemma Run_fiducials_facts:
  "pixelCenter (Run_fiducials fpf a) = pixelCenter a \<and>
   limbCrossings (Run_fiducials fpf a) = limbCrossings a \<and>
   frameSize (Run_fiducials fpf a) = frameSize a \<and>
   (length (mapping a) = 4 \<longrightarrow> length (mapping (Run_fiducials fpf a)) = 4) \<and>
   state (Run_fiducials fpf a) \<in> {NO_FIDUCIALS, FEW_FIDUCIALS, NO_IDS, FEW_IDS, NO_ERROR} \<and>
   (fiducialIDs a = [] \<longrightarrow> state (Run_fiducials fpf a) \<noteq> FEW_FIDUCIALS \<longrightarrow>
      length (fiducialIDs (Run_fiducials fpf a)) = length (pixelFiducials (Run_fiducials fpf a))) \<and>
   (state (Run_fiducials fpf a) = FEW_FIDUCIALS \<longrightarrow>
      fiducialIDs (Run_fiducials fpf a) = fiducialIDs a \<and>
      (length (pixelFiducials (Run_fiducials fpf a)) = 1 \<or>
       length (pixelFiducials (Run_fiducials fpf a)) = 2))"
proof (cases "length (fpf a) = 0")
  case True
  then show ?thesis by (simp add: Run_fiducials_def Let_def)
next
  case False
  note nz = this
  show ?thesis
  proof (cases "length (fpf a) < 3")
    case True
    have "length (fpf a) = 1 \<or> length (fpf a) = 2" using nz True by arith
    then show ?thesis using nz True by (simp add: Run_fiducials_def Let_def)
  next
    case False
    then have "Run_fiducials fpf a = Run_ids (a\<lparr>pixelFiducials := fpf a\<rparr>)"
      using nz by (simp add: Run_fiducials_def Let_def)
    then show ?thesis using Run_ids_facts [of "a\<lparr>pixelFiducials := fpf a\<rparr>"] by auto
  qed
qed

lemma Run_solar_facts:
  assumes "Run_solar fpf a = Inr b"
  shows "pixelCenter b = pixelCenter a \<and>
   limbCrossings b = limbCrossings a \<and>
   frameSize b = frameSize a \<and>
   (length (mapping a) = 4 \<longrightarrow> length (mapping b) = 4) \<and>
   state b \<in> {SOLAR_IMAGE_EMPTY, SOLAR_IMAGE_SMALL, SOLAR_IMAGE_OFFSET_OUT_OF_BOUNDS,
               NO_FIDUCIALS, FEW_FIDUCIALS, NO_IDS, FEW_IDS, NO_ERROR} \<and>
   (fiducialIDs a = [] \<longrightarrow> pixelFiducials a = [] \<longrightarrow> state b \<noteq> FEW_FIDUCIALS \<longrightarrow>
      length (fiducialIDs b) = length (pixelFiducials b)) \<and>
   (state b = FEW_FIDUCIALS \<longrightarrow>
      fiducialIDs b = fiducialIDs a \<and> (length (pixelFiducials b) = 1 \<or> length (pixelFiducials b) = 2))"
proof -
  let ?sz = "trunc (real_of_int (solarRadius a) * (1 + radiusMargin a))"
  let ?rr = "SafeRange (trunc (the_real (snd (pixelCenter a)) - real_of_int ?sz))
               (trunc (the_real (snd (pixelCenter a)) + real_of_int ?sz)) (snd (frameSize a))"
  let ?cr = "SafeRange (trunc (the_real (fst (pixelCenter a)) - real_of_int ?sz))
               (trunc (the_real (fst (pixelCenter a)) + real_of_int ?sz)) (fst (frameSize a))"
  obtain sub where sub: "Mat_sub (frame a) ?rr ?cr = Inr sub"
    using assms by (cases "Mat_sub (frame a) ?rr ?cr") (simp_all add: Run_solar_def Let_def)
  let ?a1 = "a\<lparr>solarImage := sub\<rparr>"
  let ?a2 = "?a1\<lparr>solarImageSize := (int (cols sub), int (rows sub))\<rparr>"
  let ?a3 = "?a2\<lparr>solarImageOffset := (fst ?cr, fst ?rr)\<rparr>"
  consider (e) "b = ?a1\<lparr>state := SOLAR_IMAGE_EMPTY\<rparr>"
    | (s) "b = ?a2\<lparr>state := SOLAR_IMAGE_SMALL\<rparr>"
    | (ob) "b = ?a3\<lparr>state := SOLAR_IMAGE_OFFSET_OUT_OF_BOUNDS\<rparr>"
    | (f) "b = Run_fiducials fpf ?a3"
    using assms sub by (simp add: Run_solar_def Let_def split: if_splits)
  then show ?thesis
  proof cases
    case f
    then show ?thesis using Run_fiducials_facts [of fpf ?a3] by simp
  qed simp_all
qed

lemma in_bounds_iff:
  "(\<not> center_out_of_bounds a p) =
   (\<exists>x y. p = (Fin x, Fin y) \<and> 0 \<le> x \<and> x < real_of_int (fst (frameSize a)) \<and>
          0 \<le> y \<and> y < real_of_int (snd (frameSize a)))"
proof (cases p)
  case (Pair u v)
  show ?thesis
    by (cases u; cases v) (simp_all add: Pair center_out_of_bounds_def flt_ge_def flt_of_int_def not_less not_le)
qed

lemma center_out_of_bounds_frameSize:
  "frameSize b = frameSize a \<Longrightarrow> center_out_of_bounds b p = center_out_of_bounds a p"
  by (simp add: center_out_of_bounds_def)

lemma state_pixelCenter_commute:
  "c\<lparr>pixelCenter := p, state := st\<rparr> = c\<lparr>state := st, pixelCenter := p\<rparr>"
  by (cases c) simp

lemma Run_center_cases:
  assumes "Run_center fpf beyond a = Inr b"
  obtains (fail) c st where "FindPixelCenter beyond a = Inr c"
      "b = c\<lparr>state := st, pixelCenter := (Fin (- 1), Fin (- 1))\<rparr>"
      "st \<in> {NO_LIMB_CROSSINGS, FEW_LIMB_CROSSINGS, CENTER_OUT_OF_BOUNDS, CENTER_ERROR_LARGE}"
  | (solar) c where "FindPixelCenter beyond a = Inr c"
      "\<not> center_out_of_bounds c (pixelCenter c)" "Run_solar fpf c = Inr b"
proof (cases "FindPixelCenter beyond a")
  case (Inl f)
  then show ?thesis using assms by (simp add: Run_center_def)
next
  case (Inr c)
  have "(\<exists>st \<in> {NO_LIMB_CROSSINGS, FEW_LIMB_CROSSINGS, CENTER_OUT_OF_BOUNDS, CENTER_ERROR_LARGE}.
           b = c\<lparr>state := st, pixelCenter := (Fin (- 1), Fin (- 1))\<rparr>) \<or>
     (\<not> center_out_of_bounds c (pixelCenter c) \<and> Run_solar fpf c = Inr b)"
    using assms unfolding Run_center_def Inr sum.case
    by (auto simp add: state_pixelCenter_commute split: if_splits)
  then show ?thesis using fail solar Inr by blast
qed

lemma Run_center_facts:
  assumes "Run_center fpf beyond a = Inr b"
  shows "frameSize b = frameSize a \<and>
   (length (mapping a) = 4 \<longrightarrow> length (mapping b) = 4) \<and>
   state b \<in> {NO_LIMB_CROSSINGS, FEW_LIMB_CROSSINGS, CENTER_OUT_OF_BOUNDS, CENTER_ERROR_LARGE,
               SOLAR_IMAGE_EMPTY, SOLAR_IMAGE_SMALL, SOLAR_IMAGE_OFFSET_OUT_OF_BOUNDS,
               NO_FIDUCIALS, FEW_FIDUCIALS, NO_IDS, FEW_IDS, NO_ERROR} \<and>
   (state b \<in> {NO_LIMB_CROSSINGS, FEW_LIMB_CROSSINGS, CENTER_OUT_OF_BOUNDS, CENTER_ERROR_LARGE} \<longrightarrow>
      pixelCenter b = (Fin (- 1), Fin (- 1))) \<and>
   (state b \<notin> {NO_LIMB_CROSSINGS, FEW_LIMB_CROSSINGS, CENTER_OUT_OF_BOUNDS, CENTER_ERROR_LARGE} \<longrightarrow>
      \<not> center_out_of_bounds a (pixelCenter b)) \<and>
   (fiducialIDs a = [] \<longrightarrow> pixelFiducials a = [] \<longrightarrow> state b \<noteq> FEW_FIDUCIALS \<longrightarrow>
      length (fiducialIDs b) = length (pixelFiducials b)) \<and>
   (fiducialIDs a = [] \<longrightarrow> state b = FEW_FIDUCIALS \<longrightarrow>
      fiducialIDs b = [] \<and> (length (pixelFiducials b) = 1 \<or> length (pixelFiducials b) = 2)) \<and>
   (\<exists>c. FindPixelCenter beyond a = Inr c \<and> limbCrossings b = limbCrossings c)"
  using assms
proof (cases rule: Run_center_cases)
  case (fail c st)
  note k = FindPixelCenter_keeps [OF fail(1)]
  have "limbCrossings b = limbCrossings c" using fail by simp
  then have ex: "\<exists>c. FindPixelCenter beyond a = Inr c \<and> limbCrossings b = limbCrossings c"
    using fail(1) by blast
  have sb: "state b = st" using fail by simp
  have pb: "pixelCenter b = (Fin (- 1), Fin (- 1))" using fail by simp
  have o: "frameSize b = frameSize a" "mapping b = mapping a" "fiducialIDs b = fiducialIDs a"
    "pixelFiducials b = pixelFiducials a"
    using fail(2) k by simp_all
  show ?thesis using sb pb o ex fail(3) by auto
next
  case (solar c)
  note k = FindPixelCenter_keeps [OF solar(1)]
  note s = solar(2,3)
  {
    note sf = Run_solar_facts [OF s(2)]
    have cb: "center_out_of_bounds a (pixelCenter b) = center_out_of_bounds c (pixelCenter c)"
      using k sf by (simp add: center_out_of_bounds_def)
    have ex: "\<exists>c. FindPixelCenter beyond a = Inr c \<and> limbCrossings b = limbCrossings c"
      using solar(1) sf by blast
    have st: "state b \<in> {SOLAR_IMAGE_EMPTY, SOLAR_IMAGE_SMALL, SOLAR_IMAGE_OFFSET_OUT_OF_BOUNDS,
               NO_FIDUCIALS, FEW_FIDUCIALS, NO_IDS, FEW_IDS, NO_ERROR}" using sf by blast
    have c1: "frameSize b = frameSize a" using sf k by simp
    have c2: "length (mapping a) = 4 \<longrightarrow> length (mapping b) = 4" using sf k by simp
    have c3: "state b \<in> {NO_LIMB_CROSSINGS, FEW_LIMB_CROSSINGS, CENTER_OUT_OF_BOUNDS, CENTER_ERROR_LARGE,
               SOLAR_IMAGE_EMPTY, SOLAR_IMAGE_SMALL, SOLAR_IMAGE_OFFSET_OUT_OF_BOUNDS,
               NO_FIDUCIALS, FEW_FIDUCIALS, NO_IDS, FEW_IDS, NO_ERROR}" using st by blast
    have c4: "state b \<in> {NO_LIMB_CROSSINGS, FEW_LIMB_CROSSINGS, CENTER_OUT_OF_BOUNDS, CENTER_ERROR_LARGE} \<longrightarrow>
      pixelCenter b = (Fin (- 1), Fin (- 1))" using st by auto
    have c5: "state b \<notin> {NO_LIMB_CROSSINGS, FEW_LIMB_CROSSINGS, CENTER_OUT_OF_BOUNDS, CENTER_ERROR_LARGE} \<longrightarrow>
      \<not> center_out_of_bounds a (pixelCenter b)" using cb s(1) by simp
    have c6: "fiducialIDs a = [] \<longrightarrow> pixelFiducials a = [] \<longrightarrow> state b \<noteq> FEW_FIDUCIALS \<longrightarrow>
      length (fiducialIDs b) = length (pixelFiducials b)" using sf k by simp
    have c7: "fiducialIDs a = [] \<longrightarrow> state b = FEW_FIDUCIALS \<longrightarrow>
      fiducialIDs b = [] \<and> (length (pixelFiducials b) = 1 \<or> length (pixelFiducials b) = 2)"
      using sf k by simp
    have ?thesis using c1 c2 c3 c4 c5 c6 c7 ex by blast
  }
  then show ?thesis .
qed


lemma Run_cases:
  assumes "Run fpf beyond a = Inr b"
  obtains (empty) "state a = FRAME_EMPTY" "b = (clear_outputs a)\<lparr>state := FRAME_EMPTY\<rparr>"
  | (bad) mm where "state a \<noteq> FRAME_EMPTY" "calcMinMax (frame a) = Some mm" "fst mm \<ge> snd mm"
      "b = (clear_outputs a)\<lparr>frameMin := fst mm, frameMax := snd mm, state := MIN_MAX_BAD\<rparr>"
  | (low) mm where "state a \<noteq> FRAME_EMPTY" "calcMinMax (frame a) = Some mm" "\<not> fst mm \<ge> snd mm"
      "int (unat (snd mm)) - int (unat (fst mm)) < 32"
      "b = (clear_outputs a)\<lparr>frameMin := fst mm, frameMax := snd mm, state := DYNAMIC_RANGE_LOW\<rparr>"
  | (center) mm where "state a \<noteq> FRAME_EMPTY" "calcMinMax (frame a) = Some mm" "\<not> fst mm \<ge> snd mm"
      "\<not> int (unat (snd mm)) - int (unat (fst mm)) < 32"
      "Run_center fpf beyond ((clear_outputs a)\<lparr>frameMin := fst mm, frameMax := snd mm\<rparr>) = Inr b"
proof (cases "state a = FRAME_EMPTY")
  case True
  have "b = (clear_outputs a)\<lparr>state := FRAME_EMPTY\<rparr>"
    using assms True unfolding Run_def clear_outputs_def Let_def by simp
  then show ?thesis using True empty by blast
next
  case False
  then obtain mm where mm: "calcMinMax (frame a) = Some mm"
    using assms by (cases "calcMinMax (frame a)") (simp_all add: Run_def Let_def clear_outputs_def)
  have r: "Run fpf beyond a =
     (let a = (clear_outputs a)\<lparr>frameMin := fst mm, frameMax := snd mm\<rparr> in
                if fst mm \<ge> snd mm then Inr (a\<lparr>state := MIN_MAX_BAD\<rparr>)
                else if int (unat (snd mm)) - int (unat (fst mm)) < 32 then Inr (a\<lparr>state := DYNAMIC_RANGE_LOW\<rparr>)
                else Run_center fpf beyond a)"
    using False mm unfolding Run_def clear_outputs_def Let_def by simp
  show ?thesis
  proof (cases "fst mm \<ge> snd mm")
    case True
    then have "b = (clear_outputs a)\<lparr>frameMin := fst mm, frameMax := snd mm, state := MIN_MAX_BAD\<rparr>"
      using assms r by (simp add: Let_def)
    then show ?thesis using bad False mm True by blast
  next
    case nb: False
    show ?thesis
    proof (cases "int (unat (snd mm)) - int (unat (fst mm)) < 32")
      case True
      then have "b = (clear_outputs a)\<lparr>frameMin := fst mm, frameMax := snd mm, state := DYNAMIC_RANGE_LOW\<rparr>"
        using assms r nb by (simp add: Let_def)
      then show ?thesis using low False mm True nb by blast
    next
      case nl: False
      then have "Run_center fpf beyond ((clear_outputs a)\<lparr>frameMin := fst mm, frameMax := snd mm\<rparr>) = Inr b"
        using assms r nb by (simp add: Let_def)
      then show ?thesis using center False mm nl nb by blast
    qed
  qed
qed


subsection \<open>What the centre stage reads\<close>

lemma limb_config_fields:
  assumes "limb_config a = limb_config b"
  shows "frameMin a = frameMin b" "frameMax a = frameMax b" "limbThreshold a = limbThreshold b"
    "diskThreshold a = diskThreshold b" "solarRadius a = solarRadius b"
    "minLimbWidth a = minLimbWidth b" "limbFitWidth a = limbFitWidth b"
  using assms by (simp_all add: limb_config_def)

lemma fit_edge_cong:
  assumes "limb_config a = limb_config b"
  shows "fit_edge a = fit_edge b"
  unfolding fun_eq_iff fit_edge_def fit_min_def fit_max_def fit_indices_def lowerThreshold_def
      limb_config_fields [OF assms]
  by simp

lemma refine_step_cong:
  assumes "limb_config a = limb_config b"
  shows "refine_step a = refine_step b"
  unfolding fun_eq_iff refine_step_def fit_edge_cong [OF assms]
  by simp

lemma select_edges_cong:
  assumes "limb_config a = limb_config b"
  shows "select_edges a = select_edges b"
  unfolding fun_eq_iff select_edges_def limb_config_fields [OF assms]
  by simp

lemma FindLimbCrossings_cong:
  assumes "limb_config a = limb_config b"
  shows "FindLimbCrossings a = FindLimbCrossings b"
  unfolding fun_eq_iff FindLimbCrossings_def pixelLowerThreshold_def lowerThreshold_def
      upperThreshold_def refine_step_cong [OF assms] select_edges_cong [OF assms]
      limb_config_fields [OF assms]
  by simp

lemma chord_step_cong:
  assumes "limb_config a = limb_config b" "frame a = frame b"
    "search \<or> solarImageOffset a = solarImageOffset b"
  shows "chord_step a beyond search input = chord_step b beyond search input"
proof (cases search)
  case True
  show ?thesis
    unfolding fun_eq_iff chord_step_def FindLimbCrossings_cong [OF assms(1)] assms(2)
    by (simp add: True)
next
  case False
  then have off_eq: "solarImageOffset a = solarImageOffset b" using assms(3) by simp
  show ?thesis
    unfolding fun_eq_iff chord_step_def FindLimbCrossings_cong [OF assms(1)] assms(2) off_eq
    by simp
qed

lemma chord_loop_cong:
  assumes "limb_config a = limb_config b" "frame a = frame b"
    "search \<or> solarImageOffset a = solarImageOffset b"
  shows "chord_loop a beyond search input dm ps st = chord_loop b beyond search input dm ps st"
proof (induction ps arbitrary: st)
  case Nil
  show ?case by simp
next
  case (Cons p ps)
  show ?case
    by (simp add: chord_step_cong [OF assms] Cons.IH split: sum.splits)
qed

lemma FindPixelCenter_search:
  assumes "center_out_of_bounds a (pixelCenter a) \<or> Mat_empty (solarImage a)"
  shows "FindPixelCenter beyond a =
     (case search_result beyond a of
        Inl f \<Rightarrow> Inl f
      | Inr r \<Rightarrow> Inr (a\<lparr>pixelCenter := fst r, pixelError := fst (snd r),
                          limbCrossings := fst (snd (snd r)), slopes := snd (snd (snd r))\<rparr>))"
  using assms
  by (simp add: FindPixelCenter_def search_result_def Let_def split: sum.splits)

lemma search_result_cong:
  assumes "limb_config a = limb_config b" "frame a = frame b" "initialNumChords a = initialNumChords b"
  shows "search_result beyond a = search_result beyond b"
  unfolding search_result_def assms(2) assms(3)
    chord_loop_cong [of a b True, OF assms(1) assms(2), simplified, unfolded assms(2)]
  by simp


subsection \<open>\<open>Run\<close> on the corner frame\<close>

lemma corner_chord:
  "FindLimbCrossings corner_ref beyond [200, 200, 200, 10, 10, 10] [] sl = (0, [Fin (- 1), Fin (19 / 6)], sl @ [Fin 57])"
  apply code_simp
  apply simp
  done

lemma pos30: "chord_positions 6 30 = replicate 30 0" by code_simp
lemma pos10: "chord_positions 6 10 = replicate 10 0" by code_simp
lemma ms30: "mean_std (replicate 30 (Fin (13 / 12))) = (Fin (13 / 12), Fin 0)" by code_simp
lemma ms10: "mean_std (replicate 10 (Fin (13 / 12))) = (Fin (13 / 12), Fin 0)" by code_simp
lemma mm: "calcMinMax frame_corner = Some (10, 200)" by code_simp


lemma corner_step:
  assumes lc: "limb_config a = limb_config corner_ref"
    and ch: "(if dm = 1 then Mat_row input 0 else Mat_col input 0) = [200, 200, 200, 10, 10, 10]"
    and sz: "rows input = 6" "cols input = 6"
    and off: "search \<or> solarImageOffset a = (0, 0)"
  shows "chord_step a beyond search input dm 0 (lc, sl, mids) =
     Inr (lc @ (if dm = 1 then [(Fin (- 1), Fin 0), (Fin (19 / 6), Fin 0)]
                else [(Fin 0, Fin (- 1)), (Fin 0, Fin (19 / 6))]),
          sl @ [Fin 57], mids @ [Fin (13 / 12)])"
proof (cases "dm = 1")
  case True
  have c: "Mat_row input 0 = [200, 200, 200, 10, 10, 10]" using ch True by simp
  have f: "\<And>y. FindLimbCrossings a y (Mat_row input 0) [] sl =
           (0, [Fin (- 1), Fin (19 / 6)], sl @ [Fin 57])"
    unfolding c FindLimbCrossings_cong [OF lc] by (rule corner_chord)
  have o: "(if search then (0, 0) else solarImageOffset a) = (0, 0)" using off by auto
  show ?thesis
    unfolding chord_step_def True
    by (simp add: f o sz Let_def flt_of_int_def)
next
  case False
  have c: "Mat_col input 0 = [200, 200, 200, 10, 10, 10]" using ch False by simp
  have f: "\<And>y. FindLimbCrossings a y (Mat_col input 0) [] sl =
           (0, [Fin (- 1), Fin (19 / 6)], sl @ [Fin 57])"
    unfolding c FindLimbCrossings_cong [OF lc] by (rule corner_chord)
  have o: "(if search then (0, 0) else solarImageOffset a) = (0, 0)" using off by auto
  have d: "dm \<noteq> Suc 0" "(dm = 1) = False" using False by simp_all
  show ?thesis
    unfolding chord_step_def d(2) if_False
    by (simp add: d f o sz Let_def flt_of_int_def)
qed

lemma corner_loop:
  assumes lc: "limb_config a = limb_config corner_ref"
    and ch: "(if dm = 1 then Mat_row input 0 else Mat_col input 0) = [200, 200, 200, 10, 10, 10]"
    and sz: "rows input = 6" "cols input = 6"
    and off: "search \<or> solarImageOffset a = (0, 0)"
  shows "chord_loop a beyond search input dm (replicate n 0) (lc, sl, mids) =
     Inr (lc @ concat (replicate n (if dm = 1 then [(Fin (- 1), Fin 0), (Fin (19 / 6), Fin 0)]
                else [(Fin 0, Fin (- 1)), (Fin 0, Fin (19 / 6))])),
          sl @ replicate n (Fin 57), mids @ replicate n (Fin (13 / 12)))"
proof (induction n arbitrary: lc sl mids)
  case 0
  show ?case by simp
next
  case (Suc n)
  show ?case
    by (simp add: corner_step [OF assms] Suc.IH replicate_app_Cons_same)
qed


lemma length_corner_crossings: "length (corner_crossings n) = 4 * n"
  by (simp add: corner_crossings_def length_concat sum_list_replicate)

lemma corner_col: "Mat_col frame_corner 0 = [200, 200, 200, 10, 10, 10]" by code_simp
lemma corner_row: "Mat_row frame_corner 0 = [200, 200, 200, 10, 10, 10]" by code_simp

lemma ms_replicate:
  "mean_std ([] @ replicate 30 (Fin (13 / 12))) = (Fin (13 / 12), Fin 0)"
  "mean_std ([] @ replicate 10 (Fin (13 / 12))) = (Fin (13 / 12), Fin 0)"
  using ms30 ms10 by simp_all

lemma corner_search:
  assumes "limb_config a = limb_config corner_ref" "frame a = frame_corner" "initialNumChords a = 30"
  shows "search_result beyond a =
     Inr ((Fin (13 / 12), Fin (13 / 12)), (Fin 0, Fin 0), corner_crossings 30, replicate 60 (Fin 57))"
proof -
  have sz: "rows frame_corner = 6" "cols frame_corner = 6" by (simp_all add: frame_corner_def)
  have l0: "chord_loop a beyond True frame_corner 0 (replicate 30 0) ([], [], []) =
      Inr ([] @ concat (replicate 30 [(Fin 0, Fin (- 1)), (Fin 0, Fin (19 / 6))]),
           [] @ replicate 30 (Fin 57), [] @ replicate 30 (Fin (13 / 12)))"
    using corner_loop [of a 0 frame_corner True beyond 30 "[]" "[]" "[]", OF assms(1) _ sz]
    by (simp add: corner_col)
  have l1: "\<And>lc sl. chord_loop a beyond True frame_corner (Suc 0) (replicate 30 0) (lc, sl, []) =
      Inr (lc @ concat (replicate 30 [(Fin (- 1), Fin 0), (Fin (19 / 6), Fin 0)]),
           sl @ replicate 30 (Fin 57), [] @ replicate 30 (Fin (13 / 12)))"
    using corner_loop [of a 1 frame_corner True beyond 30 _ _ "[]", OF assms(1) _ sz]
    by (simp add: corner_row)
  show ?thesis
    unfolding search_result_def assms(2) assms(3) sz pos30 l0
    by (simp add: l1 ms30 corner_crossings_def replicate_add [symmetric] del: replicate_add)
qed


lemma corner_Run_search:
  assumes cfg: "limbThreshold a = 1 / 4" "diskThreshold a = 3 / 4" "solarRadius a = 98"
      "minLimbWidth a = 15" "limbFitWidth a = 2" "initialNumChords a = 30" "errorLimit a = 50"
    and fr: "frame a = frame_corner" "frameSize a = (6, 6)"
    and st: "state a \<noteq> FRAME_EMPTY"
    and se: "center_out_of_bounds a (pixelCenter a) \<or> Mat_empty (solarImage a)"
  shows "Run fpf beyond a =
     Run_solar fpf ((clear_outputs a)\<lparr>frameMin := 10, frameMax := 200,
        pixelCenter := (Fin (13 / 12), Fin (13 / 12)), pixelError := (Fin 0, Fin 0),
        limbCrossings := corner_crossings 30, slopes := replicate 60 (Fin 57)\<rparr>)"
proof -
  let ?c = "(clear_outputs a)\<lparr>frameMin := 10, frameMax := 200\<rparr>"
  have r: "Run fpf beyond a = Run_center fpf beyond ?c"
    using st by (simp add: Run_def Let_def clear_outputs_def fr mm)
  have lc: "limb_config ?c = limb_config corner_ref"
    by (simp add: limb_config_def clear_outputs_def corner_ref_def Aspect_new_def cfg)
  have s: "search_result beyond ?c =
     Inr ((Fin (13 / 12), Fin (13 / 12)), (Fin 0, Fin 0), corner_crossings 30, replicate 60 (Fin 57))"
    by (rule corner_search [OF lc]) (simp_all add: clear_outputs_def fr cfg)
  have se': "center_out_of_bounds ?c (pixelCenter ?c) \<or> Mat_empty (solarImage ?c)"
    using se by (simp add: clear_outputs_def center_out_of_bounds_def)
  have f: "FindPixelCenter beyond ?c =
     Inr (?c\<lparr>pixelCenter := (Fin (13 / 12), Fin (13 / 12)), pixelError := (Fin 0, Fin 0),
        limbCrossings := corner_crossings 30, slopes := replicate 60 (Fin 57)\<rparr>)"
    unfolding FindPixelCenter_search [OF se'] s by simp
  show ?thesis
    unfolding r Run_center_def f
    by (simp add: length_corner_crossings center_out_of_bounds_def clear_outputs_def fr cfg
        flt_ge_def flt_gt_def flt_of_int_def)
qed


lemma trunc_vals:
  "trunc (98 * (1 + 1 / 4)) = 122" "trunc (13 / 12 - 122) = - 120" "trunc (13 / 12 + 122) = 123"
  "trunc (156 / 10) = 15" "trunc 2 = 2"
  by (simp_all add: trunc_def)

lemma corner_centered_fields:
  "pixelCenter (corner_centered a n) = (Fin (13 / 12), Fin (13 / 12))"
  "frame (corner_centered a n) = frame a"
  "frameSize (corner_centered a n) = frameSize a"
  "solarRadius (corner_centered a n) = solarRadius a"
  "radiusMargin (corner_centered a n) = radiusMargin a"
  "fiducialSpacing (corner_centered a n) = fiducialSpacing a"
  "fiducialLength (corner_centered a n) = fiducialLength a"
  by (simp_all add: corner_centered_def clear_outputs_def)

lemma corner_Mat_sub: "Mat_sub frame_corner (0, 6) (0, 6) = Inr corner_sub"
  by (simp add: Mat_sub_def frame_corner_def corner_sub_def)

lemma corner_sub_size: "rows corner_sub = 6" "cols corner_sub = 6" "\<not> Mat_empty corner_sub"
  by (simp_all add: corner_sub_def Mat_empty_def)

lemma corner_ranges:
  "SafeRange (trunc (13 / 12 - real_of_int 122)) (trunc (13 / 12 + real_of_int 122)) 6 = (0, 6)"
  using trunc_vals by (simp add: SafeRange_def)

lemma corner_Mat_sub_ranges:
  "Mat_sub frame_corner (SafeRange (- 120) 123 6) (SafeRange (- 120) 123 6) = Inr corner_sub"
  by (simp add: SafeRange_def corner_Mat_sub)

lemma corner_solar_default:
  assumes "frame a = frame_corner" "frameSize a = (6, 6)" "solarRadius a = 98" "radiusMargin a = 1 / 4"
    "fiducialSpacing a = 156 / 10" "fiducialLength a = 15"
  shows "Run_solar fpf (corner_centered a n) =
     Inr ((corner_centered a n)\<lparr>solarImage := corner_sub, solarImageSize := (6, 6),
                                state := SOLAR_IMAGE_SMALL\<rparr>)"
proof -
  let ?c = "corner_centered a n"
  let ?c1 = "?c\<lparr>solarImage := corner_sub\<rparr>"
  let ?c2 = "?c1\<lparr>solarImageSize := (int (cols (solarImage ?c1)), int (rows (solarImage ?c1)))\<rparr>"
  have e: "\<not> Mat_empty (solarImage ?c1)" by (simp add: corner_sub_size)
  have s: "fst (solarImageSize ?c2) < trunc (fiducialSpacing ?c2) + 2 * fiducialLength ?c2"
    by (simp add: corner_sub_size corner_centered_fields assms trunc_def)
  have c2: "?c2 = ?c\<lparr>solarImage := corner_sub, solarImageSize := (6, 6)\<rparr>"
    by (simp add: corner_sub_size)
  have "Run_solar fpf ?c = Inr (?c2\<lparr>state := SOLAR_IMAGE_SMALL\<rparr>)"
    unfolding Run_solar_def Let_def corner_centered_fields assms the_real.simps fst_conv snd_conv
      of_int_numeral trunc_vals corner_Mat_sub_ranges sum.case
    using e s by (simp only: if_False if_True simp_thms)
  then show ?thesis unfolding c2 by simp
qed


lemma corner_sub_col: "Mat_col corner_sub 0 = [200, 200, 200, 10, 10, 10]" by code_simp
lemma corner_sub_row: "Mat_row corner_sub 0 = [200, 200, 200, 10, 10, 10]" by code_simp

lemma translate_zero_pairs:
  "map (translate (0, 0)) (concat (replicate n [(Fin x1, Fin y1), (Fin x2, Fin y2)])) =
   concat (replicate n [(Fin x1, Fin y1), (Fin x2, Fin y2)])"
  by (induction n) (simp_all add: translate_def flt_of_int_def)

lemma corner_operating:
  assumes lc: "limb_config a = limb_config corner_ref"
    and si: "solarImage a = corner_sub" "solarImageOffset a = (0, 0)" "chordsPerAxis a = 10"
    and ns: "\<not> center_out_of_bounds a (pixelCenter a)"
  shows "FindPixelCenter beyond a =
     Inr (a\<lparr>pixelCenter := (Fin (13 / 12), Fin (13 / 12)), pixelError := (Fin 0, Fin 0),
           limbCrossings := corner_crossings 10, slopes := replicate 20 (Fin 57)\<rparr>)"
proof -
  have off: "False \<or> solarImageOffset a = (0, 0)" using si by simp
  have l0: "chord_loop a beyond False corner_sub 0 (replicate 10 0) ([], [], []) =
      Inr ([] @ concat (replicate 10 [(Fin 0, Fin (- 1)), (Fin 0, Fin (19 / 6))]),
           [] @ replicate 10 (Fin 57), [] @ replicate 10 (Fin (13 / 12)))"
    using corner_loop [of a 0 corner_sub False beyond 10 "[]" "[]" "[]", OF lc _ corner_sub_size(1,2) off]
    by (simp add: corner_sub_col)
  have l1: "\<And>lc sl. chord_loop a beyond False corner_sub (Suc 0) (replicate 10 0) (lc, sl, []) =
      Inr (lc @ concat (replicate 10 [(Fin (- 1), Fin 0), (Fin (19 / 6), Fin 0)]),
           sl @ replicate 10 (Fin 57), [] @ replicate 10 (Fin (13 / 12)))"
    using corner_loop [of a 1 corner_sub False beyond 10 _ _ "[]", OF lc _ corner_sub_size(1,2) off]
    by (simp add: corner_sub_row)
  have s: "(center_out_of_bounds a (pixelCenter a) \<or> Mat_empty corner_sub) = False"
    using ns by (simp add: corner_sub_size)
  have t: "translate (0, 0) (Fin (13 / 12), Fin (13 / 12)) = (Fin (13 / 12), Fin (13 / 12))"
    by (simp add: translate_def flt_of_int_def)
  show ?thesis
    unfolding FindPixelCenter_def Let_def si s if_False corner_sub_size pos10 l0
    by (simp add: l1 ms10 t translate_zero_pairs
        corner_crossings_def replicate_add [symmetric] del: replicate_add)
qed


lemma corner_Run_search':
  assumes cfg: "limbThreshold a = 1 / 4" "diskThreshold a = 3 / 4" "solarRadius a = 98"
      "minLimbWidth a = 15" "limbFitWidth a = 2" "initialNumChords a = 30" "errorLimit a = 50"
    and fr: "frame a = frame_corner" "frameSize a = (6, 6)"
    and st: "state a \<noteq> FRAME_EMPTY"
    and se: "center_out_of_bounds a (pixelCenter a) \<or> Mat_empty (solarImage a)"
  shows "Run fpf beyond a = Run_solar fpf (corner_centered a 30)"
  using corner_Run_search [OF assms] by (simp add: corner_centered_def)

lemma corner_Run_operating:
  assumes cfg: "limbThreshold a = 1 / 4" "diskThreshold a = 3 / 4" "solarRadius a = 98"
      "minLimbWidth a = 15" "limbFitWidth a = 2" "chordsPerAxis a = 10" "errorLimit a = 50"
    and fr: "frame a = frame_corner" "frameSize a = (6, 6)"
    and st: "state a \<noteq> FRAME_EMPTY"
    and si: "solarImage a = corner_sub" "solarImageOffset a = (0, 0)"
    and ns: "\<not> center_out_of_bounds a (pixelCenter a)"
  shows "Run fpf beyond a = Run_solar fpf (corner_centered a 10)"
proof -
  let ?c = "(clear_outputs a)\<lparr>frameMin := 10, frameMax := 200\<rparr>"
  have r: "Run fpf beyond a = Run_center fpf beyond ?c"
    using st by (simp add: Run_def Let_def clear_outputs_def fr mm)
  have lc: "limb_config ?c = limb_config corner_ref"
    by (simp add: limb_config_def clear_outputs_def corner_ref_def Aspect_new_def cfg)
  have ns': "\<not> center_out_of_bounds ?c (pixelCenter ?c)"
    using ns by (simp add: clear_outputs_def center_out_of_bounds_def)
  have f: "FindPixelCenter beyond ?c =
     Inr (?c\<lparr>pixelCenter := (Fin (13 / 12), Fin (13 / 12)), pixelError := (Fin 0, Fin 0),
        limbCrossings := corner_crossings 10, slopes := replicate 20 (Fin 57)\<rparr>)"
    by (rule corner_operating [OF lc _ _ _ ns']) (simp_all add: clear_outputs_def si cfg)
  show ?thesis
    unfolding r Run_center_def f
    by (simp add: length_corner_crossings center_out_of_bounds_def clear_outputs_def fr cfg
        flt_ge_def flt_gt_def flt_of_int_def corner_centered_def)
qed

lemma corner_loaded_fields:
  "limbThreshold corner_loaded = 1 / 4" "diskThreshold corner_loaded = 3 / 4" "solarRadius corner_loaded = 98"
  "minLimbWidth corner_loaded = 15" "limbFitWidth corner_loaded = 2" "initialNumChords corner_loaded = 30"
  "errorLimit corner_loaded = 50" "frame corner_loaded = frame_corner" "frameSize corner_loaded = (6, 6)"
  "state corner_loaded \<noteq> FRAME_EMPTY"
  "center_out_of_bounds corner_loaded (pixelCenter corner_loaded) \<or> Mat_empty (solarImage corner_loaded)"
  "radiusMargin corner_loaded = 1 / 4" "fiducialSpacing corner_loaded = 156 / 10"
  "fiducialLength corner_loaded = 15" "chordsPerAxis corner_loaded = 10"
  "solarImageOffset corner_loaded = (0, 0)"
  by (simp_all add: corner_loaded_def LoadFrame_def Aspect_new_def frame_corner_def Mat_empty_def
      center_out_of_bounds_def)

lemma corner_run1: "Run fpf beyond corner_loaded = Inr corner_first"
  unfolding corner_first_def
  by (simp add: corner_Run_search' corner_solar_default corner_loaded_fields)

lemma corner_first_fields:
  "limbThreshold corner_first = 1 / 4" "diskThreshold corner_first = 3 / 4" "solarRadius corner_first = 98"
  "minLimbWidth corner_first = 15" "limbFitWidth corner_first = 2" "chordsPerAxis corner_first = 10"
  "errorLimit corner_first = 50" "frame corner_first = frame_corner" "frameSize corner_first = (6, 6)"
  "state corner_first \<noteq> FRAME_EMPTY"
  "solarImage corner_first = corner_sub" "solarImageOffset corner_first = (0, 0)"
  "\<not> center_out_of_bounds corner_first (pixelCenter corner_first)"
  "radiusMargin corner_first = 1 / 4" "fiducialSpacing corner_first = 156 / 10"
  "fiducialLength corner_first = 15"
  by (simp_all add: corner_first_def corner_centered_def clear_outputs_def corner_loaded_fields
      center_out_of_bounds_def flt_ge_def flt_of_int_def)

lemma corner_run2: "Run fpf beyond corner_first = Inr corner_second"
  unfolding corner_second_def
  by (simp add: corner_Run_operating corner_solar_default corner_first_fields)


subsection \<open>Getters at or past their ceiling\<close>

text \<open>
  C10. When a getter is called in a state that is not below its stage ceiling, it returns
  that state; every getter but \<open>GetScreenFiducials\<close> hands back its output argument
  unchanged, and \<open>GetScreenFiducials\<close> hands back the empty list, whatever the caller
  passed in. This holds for every numeric encoding of the states.
\<close>

theorem getters_past_ceiling:
  "(\<not> code (state a) < code FRAME_EMPTY \<longrightarrow> GetPixelMinMax code a mm = (state a, mm)) \<and>
   (\<not> code (state a) < code LIMB_ERROR \<longrightarrow> GetPixelCrossings code a cl = (state a, cl)) \<and>
   (\<not> code (state a) < code CENTER_ERROR \<longrightarrow>
      GetPixelCenter code a p = (state a, p) \<and> GetPixelError code a p = (state a, p)) \<and>
   (\<not> code (state a) < code FIDUCIAL_ERROR \<longrightarrow> GetPixelFiducials code a cl = (state a, cl)) \<and>
   (\<not> code (state a) < code ID_ERROR \<longrightarrow>
      GetFiducialPairs code a prs = (state a, prs) \<and> GetFiducialIDs code a ids = (state a, ids)) \<and>
   (\<not> code (state a) < code MAPPING_ERROR \<longrightarrow>
      GetMapping code a mp = (state a, mp) \<and> GetScreenCenter code a p = (state a, p) \<and>
      GetScreenFiducials code a cl = (state a, []))"
  by (simp add: GetPixelMinMax_def GetPixelCrossings_def GetPixelCenter_def GetPixelError_def
      GetPixelFiducials_def GetFiducialPairs_def GetFiducialIDs_def GetMapping_def
      GetScreenCenter_def GetScreenFiducials_def)

theorem getters_past_ceiling_witness:
  "GetPixelMinMax severity Aspect_new (7, 9) = (STALE_DATA, (7, 9)) \<and>
   GetPixelCrossings severity Aspect_new [(Fin 1, Fin 2)] = (STALE_DATA, [(Fin 1, Fin 2)]) \<and>
   GetPixelCenter severity Aspect_new (Fin 1, Fin 2) = (STALE_DATA, (Fin 1, Fin 2)) \<and>
   GetPixelError severity Aspect_new (Fin 1, Fin 2) = (STALE_DATA, (Fin 1, Fin 2)) \<and>
   GetPixelFiducials severity Aspect_new [(Fin 1, Fin 2)] = (STALE_DATA, [(Fin 1, Fin 2)]) \<and>
   GetFiducialPairs severity Aspect_new ([(0, 1)], []) = (STALE_DATA, ([(0, 1)], [])) \<and>
   GetFiducialIDs severity Aspect_new [(0, 1)] = (STALE_DATA, [(0, 1)]) \<and>
   GetMapping severity Aspect_new [Fin 3] = (STALE_DATA, [Fin 3]) \<and>
   GetScreenCenter severity Aspect_new (Fin 1, Fin 2) = (STALE_DATA, (Fin 1, Fin 2)) \<and>
   GetScreenFiducials severity Aspect_new [(Fin 1, Fin 2)] = (STALE_DATA, [])"
  using getters_past_ceiling [of severity Aspect_new "(7, 9)" "[(Fin 1, Fin 2)]" "(Fin 1, Fin 2)"
      "([(0, 1)], [])" "[(0, 1)]" "[Fin 3]"]
  by (simp add: Aspect_new_def)

lemma low_minmax: "calcMinMax frame_low = Some (0, 10)" by code_simp

lemma low_size: "rows frame_low = 1" "cols frame_low = 3"
  by (simp_all add: frame_low_def)

lemma low_run: "Run fpf beyond (LoadFrame Aspect_new frame_low) = Inr low_first"
  by (simp add: Run_def low_first_def Let_def clear_outputs_def LoadFrame_def low_size
      Mat_empty_def Aspect_new_def low_minmax)

subsection \<open>A second run after an early return\<close>

lemma Run_center_gate:
  "Run_center fpf beyond a =
     (case FindPixelCenter beyond a of
        Inl f \<Rightarrow> Inl f
      | Inr r \<Rightarrow>
          (case center_gate r of
             Some st \<Rightarrow> Inr (r\<lparr>state := st, pixelCenter := (Fin (- 1), Fin (- 1))\<rparr>)
           | None \<Rightarrow> Run_solar fpf r))"
  by (simp add: Run_center_def center_gate_def state_pixelCenter_commute split: sum.splits)

lemma center_gate_states:
  "center_gate r = Some st \<Longrightarrow>
     st \<in> {NO_LIMB_CROSSINGS, FEW_LIMB_CROSSINGS, CENTER_OUT_OF_BOUNDS, CENTER_ERROR_LARGE}"
  by (auto simp add: center_gate_def split: if_splits)

lemma center_gate_cong:
  assumes "limbCrossings r = limbCrossings q" "pixelCenter r = pixelCenter q"
    "pixelError r = pixelError q" "frameSize r = frameSize q" "errorLimit r = errorLimit q"
  shows "center_gate r = center_gate q"
  unfolding center_gate_def center_out_of_bounds_def assms by simp

lemma Run_again_empty:
  "Run fpf beyond ((clear_outputs a)\<lparr>state := FRAME_EMPTY\<rparr>) = Inr ((clear_outputs a)\<lparr>state := FRAME_EMPTY\<rparr>)"
  by (simp add: Run_def clear_outputs_def)

lemma Run_again_bad:
  assumes "calcMinMax (frame a) = Some mm" "fst mm \<ge> snd mm"
  shows "Run fpf beyond ((clear_outputs a)\<lparr>frameMin := fst mm, frameMax := snd mm, state := MIN_MAX_BAD\<rparr>) =
     Inr ((clear_outputs a)\<lparr>frameMin := fst mm, frameMax := snd mm, state := MIN_MAX_BAD\<rparr>)"
  using assms by (simp add: Run_def clear_outputs_def)

lemma Run_again_low:
  assumes "calcMinMax (frame a) = Some mm" "\<not> fst mm \<ge> snd mm"
      "int (unat (snd mm)) - int (unat (fst mm)) < 32"
  shows "Run fpf beyond ((clear_outputs a)\<lparr>frameMin := fst mm, frameMax := snd mm, state := DYNAMIC_RANGE_LOW\<rparr>) =
     Inr ((clear_outputs a)\<lparr>frameMin := fst mm, frameMax := snd mm, state := DYNAMIC_RANGE_LOW\<rparr>)"
  using assms by (simp add: Run_def clear_outputs_def)

lemma Run_center_frame:
  assumes "Run_center fpf beyond c = Inr b"
  shows "frame b = frame c"
proof -
  obtain r where r: "FindPixelCenter beyond c = Inr r"
    using assms by (cases "FindPixelCenter beyond c") (simp_all add: Run_center_gate)
  show ?thesis
  proof (cases "center_gate r")
    case None
    then have "Run_solar fpf r = Inr b" using assms r by (simp add: Run_center_gate)
    then have "frame b = frame r"
      by (auto simp add: Run_solar_def Let_def Run_fiducials_def Run_ids_def FindFiducialIDs_def
          FindMapping_def split: sum.splits if_splits)
    then show ?thesis using FindPixelCenter_keeps [OF r] by simp
  next
    case (Some s)
    then have "b = r\<lparr>state := s, pixelCenter := (Fin (- 1), Fin (- 1))\<rparr>"
      using assms r by (simp add: Run_center_gate)
    then show ?thesis using FindPixelCenter_keeps [OF r] by simp
  qed
qed

lemma Run_states:
  assumes "Run_center fpf beyond c = Inr b"
  shows "state b \<notin> {FRAME_EMPTY, MIN_MAX_BAD, DYNAMIC_RANGE_LOW}"
proof -
  have "state b \<in> {NO_LIMB_CROSSINGS, FEW_LIMB_CROSSINGS, CENTER_OUT_OF_BOUNDS, CENTER_ERROR_LARGE,
               SOLAR_IMAGE_EMPTY, SOLAR_IMAGE_SMALL, SOLAR_IMAGE_OFFSET_OUT_OF_BOUNDS,
               NO_FIDUCIALS, FEW_FIDUCIALS, NO_IDS, FEW_IDS, NO_ERROR}"
    using Run_center_facts [OF assms] by blast
  then show ?thesis by auto
qed

subsection \<open>A second run with the same hint\<close>

lemma settings_fields:
  assumes "settings a = settings b"
  shows "frame a = frame b" "frameSize a = frameSize b" "frameMin a = frameMin b"
    "frameMax a = frameMax b" "initialNumChords a = initialNumChords b"
    "chordsPerAxis a = chordsPerAxis b" "limbThreshold a = limbThreshold b"
    "diskThreshold a = diskThreshold b" "solarRadius a = solarRadius b"
    "radiusMargin a = radiusMargin b" "errorLimit a = errorLimit b"
    "limbFitWidth a = limbFitWidth b" "fiducialLength a = fiducialLength b"
    "fiducialWidth a = fiducialWidth b" "fiducialThreshold a = fiducialThreshold b"
    "minLimbWidth a = minLimbWidth b" "numFiducials a = numFiducials b"
    "fiducialSpacing a = fiducialSpacing b" "fiducialSpacingTol a = fiducialSpacingTol b"
    "fiducialTwist a = fiducialTwist b" "mDistances a = mDistances b"
    "nDistances a = nDistances b" "conditionNumbers a = conditionNumbers b"
  using assms by (simp_all add: settings_def)

lemma settings_limb_config: "settings a = settings b \<Longrightarrow> limb_config a = limb_config b"
  by (simp add: settings_def limb_config_def)

lemma Aspect_eqI:
  assumes "settings x = settings y" "state x = state y" "solarImage x = solarImage y"
    "solarImageSize x = solarImageSize y" "solarImageOffset x = solarImageOffset y"
    "pixelCenter x = pixelCenter y" "pixelError x = pixelError y" "mapping x = mapping y"
    "limbCrossings x = limbCrossings y" "slopes x = slopes y"
    "pixelFiducials x = pixelFiducials y" "fiducialIDs x = fiducialIDs y"
    "rowPairs x = rowPairs y" "colPairs x = colPairs y"
  shows "x = (y::Aspect)"
  by (rule Aspect.equality) (simp_all add: assms settings_fields [OF assms(1)])

lemma FindPixelCenter_result:
  assumes "FindPixelCenter beyond c = Inr r"
  shows "r = c\<lparr>pixelCenter := pixelCenter r, pixelError := pixelError r,
               limbCrossings := limbCrossings r, slopes := slopes r\<rparr>"
  using assms unfolding FindPixelCenter_def Let_def
  by (auto split: if_splits sum.splits)

lemma FindPixelCenter_cong:
  assumes s: "settings c' = settings c"
    and m: "searching c' = searching c"
    and h: "\<not> searching c \<Longrightarrow> solarImage c' = solarImage c \<and> solarImageOffset c' = solarImageOffset c"
    and r: "FindPixelCenter beyond c = Inr r"
  shows "FindPixelCenter beyond c' =
     Inr (c'\<lparr>pixelCenter := pixelCenter r, pixelError := pixelError r,
               limbCrossings := limbCrossings r, slopes := slopes r\<rparr>)"
proof (cases "searching c")
  case True
  then have se: "center_out_of_bounds c (pixelCenter c) \<or> Mat_empty (solarImage c)"
    by (simp add: searching_def)
  have se': "center_out_of_bounds c' (pixelCenter c') \<or> Mat_empty (solarImage c')"
    using m True by (simp add: searching_def)
  have sr: "search_result beyond c' = search_result beyond c"
    by (rule search_result_cong) (simp_all add: settings_limb_config [OF s] settings_fields [OF s])
  show ?thesis
    using r unfolding FindPixelCenter_search [OF se] FindPixelCenter_search [OF se'] sr
    by (cases "search_result beyond c") auto
next
  case False
  then have ns: "\<not> (center_out_of_bounds c (pixelCenter c) \<or> Mat_empty (solarImage c))"
    by (simp add: searching_def)
  have ns': "\<not> (center_out_of_bounds c' (pixelCenter c') \<or> Mat_empty (solarImage c'))"
    using m False by (simp add: searching_def)
  have si: "solarImage c' = solarImage c" and so: "solarImageOffset c' = solarImageOffset c"
    using h [OF False] by simp_all
  have cl: "\<And>input dm ps st. chord_loop c' beyond False input dm ps st =
                              chord_loop c beyond False input dm ps st"
    by (rule chord_loop_cong) (simp_all add: settings_limb_config [OF s] settings_fields [OF s] so)
  have cpa: "chordsPerAxis c' = chordsPerAxis c" by (rule settings_fields [OF s])
  have f: "FindPixelCenter beyond c =
     (if chordsPerAxis c = 0 then Inl DivideByZero
         else
           (case chord_loop c beyond False (solarImage c) 0 (chord_positions (cols (solarImage c)) (chordsPerAxis c)) ([], [], []) of
              Inl f \<Rightarrow> Inl f
            | Inr st0 \<Rightarrow>
                (case chord_loop c beyond False (solarImage c) 1 (chord_positions (rows (solarImage c)) (chordsPerAxis c))
                        (fst st0, fst (snd st0), []) of
                   Inl f \<Rightarrow> Inl f
                 | Inr st1 \<Rightarrow>
                     Inr (c\<lparr>pixelCenter := translate (solarImageOffset c)
                                   (fst (mean_std (snd (snd st1))), fst (mean_std (snd (snd st0)))),
                                    pixelError := (snd (mean_std (snd (snd st1))), snd (mean_std (snd (snd st0)))),
                                    limbCrossings := map (translate (solarImageOffset c)) (fst st1),
                                    slopes := fst (snd st1)\<rparr>))))"
    if "\<not> (center_out_of_bounds c (pixelCenter c) \<or> Mat_empty (solarImage c))" for c
    using that by (simp add: FindPixelCenter_def Let_def split: sum.splits)
  show ?thesis
    using r unfolding f [OF ns] f [OF ns'] cl si so cpa
    by (auto split: if_splits sum.splits)
qed

lemma id_config_fields:
  assumes "id_config a = id_config b"
  shows "fiducialSpacing a = fiducialSpacing b" "fiducialSpacingTol a = fiducialSpacingTol b"
    "mDistances a = mDistances b" "nDistances a = nDistances b" "fiducialTwist a = fiducialTwist b"
  using assms by (simp_all add: id_config_def)

lemma is_colPair_cong:
  assumes "id_config a = id_config b"
  shows "is_colPair a = is_colPair b"
  unfolding fun_eq_iff is_colPair_def id_config_fields [OF assms] by simp

lemma is_rowPair_cong:
  assumes "id_config a = id_config b"
  shows "is_rowPair a = is_rowPair b"
  unfolding fun_eq_iff is_rowPair_def id_config_fields [OF assms] by simp

lemma find_colPairs_cong:
  assumes "id_config a = id_config b"
  shows "find_colPairs a = find_colPairs b"
  unfolding fun_eq_iff find_colPairs_def is_colPair_cong [OF assms] by simp

lemma find_rowPairs_cong:
  assumes "id_config a = id_config b"
  shows "find_rowPairs a = find_rowPairs b"
  unfolding fun_eq_iff find_rowPairs_def is_colPair_cong [OF assms] is_rowPair_cong [OF assms] by simp

lemma first_rowVotes_cong:
  assumes "id_config a = id_config b"
  shows "first_rowVotes a = first_rowVotes b"
  unfolding fun_eq_iff first_rowVotes_def id_config_fields [OF assms] by simp

lemma first_colVotes_cong:
  assumes "id_config a = id_config b"
  shows "first_colVotes a = first_colVotes b"
  unfolding fun_eq_iff first_colVotes_def id_config_fields [OF assms] by simp

lemma first_pass_ids_cong:
  assumes "id_config a = id_config b"
  shows "first_pass_ids a = first_pass_ids b"
  unfolding fun_eq_iff first_pass_ids_def first_rowVotes_cong [OF assms] first_colVotes_cong [OF assms]
  by simp

lemma FindFiducialIDs_again:
  "FindFiducialIDs (x\<lparr>state := s, rowPairs := rp, colPairs := cp\<rparr>) = (FindFiducialIDs x)\<lparr>state := s\<rparr>"
proof -
  let ?y = "x\<lparr>state := s, rowPairs := rp, colPairs := cp\<rparr>"
  have c: "id_config ?y = id_config x" by (simp add: id_config_def)
  have p: "pixelFiducials ?y = pixelFiducials x" "fiducialTwist ?y = fiducialTwist x" by simp_all
  show ?thesis
    unfolding FindFiducialIDs_def Let_def p find_colPairs_cong [OF c] find_rowPairs_cong [OF c]
      first_pass_ids_cong [OF c]
    by simp
qed

lemma FindMapping_state: "FindMapping (x\<lparr>state := s\<rparr>) = (FindMapping x)\<lparr>state := s\<rparr>"
  by (simp add: FindMapping_def mapping_points_def Let_def)

lemma Run_ids_again:
  "Run_ids (x\<lparr>state := s, rowPairs := rp, colPairs := cp\<rparr>) = Run_ids x"
  unfolding Run_ids_def Let_def FindFiducialIDs_again FindMapping_state
  by simp

lemma Run_ids_pairs:
  "Run_ids (x\<lparr>state := s, rowPairs := rowPairs (Run_ids x), colPairs := colPairs (Run_ids x)\<rparr>) = Run_ids x"
  by (rule Run_ids_again)

lemma update_pixelFiducials_commute:
  "x\<lparr>state := s, rowPairs := rp, colPairs := cp, pixelFiducials := p\<rparr> =
   x\<lparr>pixelFiducials := p, state := s, rowPairs := rp, colPairs := cp\<rparr>"
  by (cases x) simp

lemma Run_fiducials_few:
  assumes "length (fpf x) < 3"
  shows "Run_fiducials fpf x =
     x\<lparr>pixelFiducials := fpf x, state := (if length (fpf x) = 0 then NO_FIDUCIALS else FEW_FIDUCIALS)\<rparr>"
  using assms by (simp add: Run_fiducials_def Let_def)

lemma Run_fiducials_many:
  assumes "\<not> length (fpf x) < 3"
  shows "Run_fiducials fpf x = Run_ids (x\<lparr>pixelFiducials := fpf x\<rparr>)"
proof -
  have "length (fpf x) \<noteq> 0" using assms by arith
  then show ?thesis using assms by (simp add: Run_fiducials_def Let_def)
qed

lemma reads_fiducial_inputsD:
  "reads_fiducial_inputs fpf \<Longrightarrow> fiducial_inputs x = fiducial_inputs y \<Longrightarrow> fpf x = fpf y"
  unfolding reads_fiducial_inputs_def by blast

lemma Run_fiducials_again:
  assumes loc: "reads_fiducial_inputs fpf"
    and rp: "rp = rowPairs (Run_fiducials fpf x)" and cp: "cp = colPairs (Run_fiducials fpf x)"
  shows "Run_fiducials fpf (x\<lparr>state := s, rowPairs := rp, colPairs := cp\<rparr>) = Run_fiducials fpf x"
proof -
  let ?y = "x\<lparr>state := s, rowPairs := rp, colPairs := cp\<rparr>"
  have "fiducial_inputs ?y = fiducial_inputs x" by (simp add: fiducial_inputs_def)
  then have p: "fpf ?y = fpf x" by (rule reads_fiducial_inputsD [OF loc])
  show ?thesis
  proof (cases "length (fpf x) < 3")
    case True
    have True': "length (fpf ?y) < 3" using True p by simp
    note bx = Run_fiducials_few [of fpf x, OF True]
    note yb = Run_fiducials_few [of fpf ?y, OF True', unfolded p]
    have rc: "rp = rowPairs x" "cp = colPairs x" unfolding rp cp bx by simp_all
    show ?thesis unfolding bx yb
      by (rule Aspect_eqI) (simp_all add: settings_def rc)
  next
    case False
    have False': "\<not> length (fpf ?y) < 3" using False p by simp
    have "Run_fiducials fpf ?y = Run_ids (?y\<lparr>pixelFiducials := fpf x\<rparr>)"
      using Run_fiducials_many [of fpf ?y, OF False'] unfolding p .
    also have "\<dots> = Run_ids (x\<lparr>pixelFiducials := fpf x\<rparr>)"
      unfolding update_pixelFiducials_commute by (rule Run_ids_again)
    also have "\<dots> = Run_fiducials fpf x"
      using Run_fiducials_many [of fpf x, OF False] by simp
    finally show ?thesis .
  qed
qed

lemma Run_solar_unfold:
  assumes "Mat_sub (frame x) rr cr = Inr sub"
    and "rr = SafeRange (trunc (the_real (snd (pixelCenter x)) -
                    real_of_int (trunc (real_of_int (solarRadius x) * (1 + radiusMargin x)))))
                 (trunc (the_real (snd (pixelCenter x)) +
                    real_of_int (trunc (real_of_int (solarRadius x) * (1 + radiusMargin x)))))
                 (snd (frameSize x))"
    and "cr = SafeRange (trunc (the_real (fst (pixelCenter x)) -
                    real_of_int (trunc (real_of_int (solarRadius x) * (1 + radiusMargin x)))))
                 (trunc (the_real (fst (pixelCenter x)) +
                    real_of_int (trunc (real_of_int (solarRadius x) * (1 + radiusMargin x)))))
                 (fst (frameSize x))"
  shows "Run_solar fpf x =
     (if Mat_empty sub then Inr (x\<lparr>solarImage := sub, state := SOLAR_IMAGE_EMPTY\<rparr>)
      else if int (cols sub) < trunc (fiducialSpacing x) + 2 * fiducialLength x \<or>
              int (rows sub) < trunc (fiducialSpacing x) + 2 * fiducialLength x
      then Inr (x\<lparr>solarImage := sub, solarImageSize := (int (cols sub), int (rows sub)),
                   state := SOLAR_IMAGE_SMALL\<rparr>)
      else if fst cr < 0 \<or> fst cr \<ge> fst (frameSize x) - int (cols sub) + 1 \<or>
              fst rr < 0 \<or> fst rr \<ge> snd (frameSize x) - int (rows sub) + 1
      then Inr (x\<lparr>solarImage := sub, solarImageSize := (int (cols sub), int (rows sub)),
                   solarImageOffset := (fst cr, fst rr), state := SOLAR_IMAGE_OFFSET_OUT_OF_BOUNDS\<rparr>)
      else Inr (Run_fiducials fpf (x\<lparr>solarImage := sub,
                   solarImageSize := (int (cols sub), int (rows sub)),
                   solarImageOffset := (fst cr, fst rr)\<rparr>)))"
  using assms(1) unfolding assms(2,3) Run_solar_def Let_def
  by simp

lemma Run_solar_again:
  assumes run: "Run_solar fpf r = Inr b" and loc: "reads_fiducial_inputs fpf"
  shows "Run_solar fpf (r\<lparr>state := st, solarImage := solarImage b, solarImageSize := solarImageSize b,
            solarImageOffset := solarImageOffset b, rowPairs := rowPairs b, colPairs := colPairs b\<rparr>) = Inr b"
proof -
  let ?q = "r\<lparr>state := st, solarImage := solarImage b, solarImageSize := solarImageSize b,
            solarImageOffset := solarImageOffset b, rowPairs := rowPairs b, colPairs := colPairs b\<rparr>"
  define rr where "rr = SafeRange (trunc (the_real (snd (pixelCenter r)) -
                    real_of_int (trunc (real_of_int (solarRadius r) * (1 + radiusMargin r)))))
                 (trunc (the_real (snd (pixelCenter r)) +
                    real_of_int (trunc (real_of_int (solarRadius r) * (1 + radiusMargin r)))))
                 (snd (frameSize r))"
  define cr where "cr = SafeRange (trunc (the_real (fst (pixelCenter r)) -
                    real_of_int (trunc (real_of_int (solarRadius r) * (1 + radiusMargin r)))))
                 (trunc (the_real (fst (pixelCenter r)) +
                    real_of_int (trunc (real_of_int (solarRadius r) * (1 + radiusMargin r)))))
                 (fst (frameSize r))"
  obtain sub where sub: "Mat_sub (frame r) rr cr = Inr sub"
    using run unfolding rr_def cr_def
    by (cases "Mat_sub (frame r) rr cr") (simp_all add: Run_solar_def Let_def rr_def cr_def)
  have subq: "Mat_sub (frame ?q) rr cr = Inr sub" using sub by simp
  note ur = Run_solar_unfold [of r rr cr sub fpf, OF sub rr_def cr_def]
  have rrq: "rr = SafeRange (trunc (the_real (snd (pixelCenter ?q)) -
                    real_of_int (trunc (real_of_int (solarRadius ?q) * (1 + radiusMargin ?q)))))
                 (trunc (the_real (snd (pixelCenter ?q)) +
                    real_of_int (trunc (real_of_int (solarRadius ?q) * (1 + radiusMargin ?q)))))
                 (snd (frameSize ?q))" by (simp add: rr_def)
  have crq: "cr = SafeRange (trunc (the_real (fst (pixelCenter ?q)) -
                    real_of_int (trunc (real_of_int (solarRadius ?q) * (1 + radiusMargin ?q)))))
                 (trunc (the_real (fst (pixelCenter ?q)) +
                    real_of_int (trunc (real_of_int (solarRadius ?q) * (1 + radiusMargin ?q)))))
                 (fst (frameSize ?q))" by (simp add: cr_def)
  note uq = Run_solar_unfold [of ?q rr cr sub fpf, OF subq rrq crq]
  let ?E = "Mat_empty sub"
  let ?S = "int (cols sub) < trunc (fiducialSpacing r) + 2 * fiducialLength r \<or>
              int (rows sub) < trunc (fiducialSpacing r) + 2 * fiducialLength r"
  let ?O = "fst cr < 0 \<or> fst cr \<ge> fst (frameSize r) - int (cols sub) + 1 \<or>
              fst rr < 0 \<or> fst rr \<ge> snd (frameSize r) - int (rows sub) + 1"
  have fq: "fiducialSpacing ?q = fiducialSpacing r" "fiducialLength ?q = fiducialLength r"
    "frameSize ?q = frameSize r" by simp_all
  show ?thesis
  proof (cases ?E)
    case True
    have b: "b = r\<lparr>solarImage := sub, state := SOLAR_IMAGE_EMPTY\<rparr>"
      using run True unfolding ur by simp
    have "Run_solar fpf ?q = Inr (?q\<lparr>solarImage := sub, state := SOLAR_IMAGE_EMPTY\<rparr>)"
      unfolding uq using True by simp
    moreover have "?q\<lparr>solarImage := sub, state := SOLAR_IMAGE_EMPTY\<rparr> = b"
      by (rule Aspect_eqI) (simp_all add: settings_def, (subst b, simp)+)
    ultimately show ?thesis by simp
  next
    case nE: False
    show ?thesis
    proof (cases ?S)
      case True
      have b: "b = r\<lparr>solarImage := sub, solarImageSize := (int (cols sub), int (rows sub)),
                   state := SOLAR_IMAGE_SMALL\<rparr>"
        using run nE True unfolding ur by simp
      have "Run_solar fpf ?q = Inr (?q\<lparr>solarImage := sub, solarImageSize := (int (cols sub), int (rows sub)),
                   state := SOLAR_IMAGE_SMALL\<rparr>)"
        unfolding uq fq using nE True by simp
      moreover have "?q\<lparr>solarImage := sub, solarImageSize := (int (cols sub), int (rows sub)),
                   state := SOLAR_IMAGE_SMALL\<rparr> = b"
        by (rule Aspect_eqI) (simp_all add: settings_def, (subst b, simp)+)
      ultimately show ?thesis by simp
    next
      case nS: False
      show ?thesis
      proof (cases ?O)
        case True
        have b: "b = r\<lparr>solarImage := sub, solarImageSize := (int (cols sub), int (rows sub)),
                   solarImageOffset := (fst cr, fst rr), state := SOLAR_IMAGE_OFFSET_OUT_OF_BOUNDS\<rparr>"
          using run nE nS True unfolding ur by simp
        have "Run_solar fpf ?q = Inr (?q\<lparr>solarImage := sub, solarImageSize := (int (cols sub), int (rows sub)),
                   solarImageOffset := (fst cr, fst rr), state := SOLAR_IMAGE_OFFSET_OUT_OF_BOUNDS\<rparr>)"
          unfolding uq fq using nE nS True by simp
        moreover have "?q\<lparr>solarImage := sub, solarImageSize := (int (cols sub), int (rows sub)),
                   solarImageOffset := (fst cr, fst rr), state := SOLAR_IMAGE_OFFSET_OUT_OF_BOUNDS\<rparr> = b"
          by (rule Aspect_eqI) (simp_all add: settings_def, (subst b, simp)+)
        ultimately show ?thesis by simp
      next
        case nO: False
        let ?a3 = "r\<lparr>solarImage := sub, solarImageSize := (int (cols sub), int (rows sub)),
                   solarImageOffset := (fst cr, fst rr)\<rparr>"
        have b: "b = Run_fiducials fpf ?a3"
          using run nE nS nO unfolding ur by simp
        let ?q3 = "?q\<lparr>solarImage := sub, solarImageSize := (int (cols sub), int (rows sub)),
                   solarImageOffset := (fst cr, fst rr)\<rparr>"
        have e1: "Run_solar fpf ?q = Inr (Run_fiducials fpf ?q3)"
          unfolding uq fq using nE nS nO by simp
        have e2: "?q3 = ?a3\<lparr>state := st, rowPairs := rowPairs b, colPairs := colPairs b\<rparr>"
          by (rule Aspect_eqI) (simp_all add: settings_def)
        have e3: "Run_fiducials fpf (?a3\<lparr>state := st, rowPairs := rowPairs b, colPairs := colPairs b\<rparr>) =
                       Run_fiducials fpf ?a3"
          by (rule Run_fiducials_again [OF loc]) (simp_all add: b)
        have "Run_solar fpf ?q = Inr (Run_fiducials fpf ?a3)"
          by (simp only: e1 e2 e3)
        then show ?thesis by (simp only: b [symmetric])
      qed
    qed
  qed
qed

lemma FindPixelCenter_settings:
  assumes "FindPixelCenter beyond c = Inr r"
  shows "settings r = settings c"
  by (subst FindPixelCenter_result [OF assms]) (simp add: settings_def)

lemma Run_ids_settings: "settings (Run_ids x) = settings x"
  by (simp add: Run_ids_def FindFiducialIDs_def FindMapping_def Let_def settings_def)

lemma Run_fiducials_settings: "settings (Run_fiducials fpf x) = settings x"
proof (cases "length (fpf x) < 3")
  case True
  show ?thesis unfolding Run_fiducials_few [of fpf x, OF True] by (simp add: settings_def)
next
  case False
  show ?thesis unfolding Run_fiducials_many [of fpf x, OF False] Run_ids_settings
    by (simp add: settings_def)
qed

lemma Run_solar_settings:
  assumes "Run_solar fpf r = Inr b"
  shows "settings b = settings r"
proof -
  define rr where "rr = SafeRange (trunc (the_real (snd (pixelCenter r)) -
                    real_of_int (trunc (real_of_int (solarRadius r) * (1 + radiusMargin r)))))
                 (trunc (the_real (snd (pixelCenter r)) +
                    real_of_int (trunc (real_of_int (solarRadius r) * (1 + radiusMargin r)))))
                 (snd (frameSize r))"
  define cr where "cr = SafeRange (trunc (the_real (fst (pixelCenter r)) -
                    real_of_int (trunc (real_of_int (solarRadius r) * (1 + radiusMargin r)))))
                 (trunc (the_real (fst (pixelCenter r)) +
                    real_of_int (trunc (real_of_int (solarRadius r) * (1 + radiusMargin r)))))
                 (fst (frameSize r))"
  obtain sub where sub: "Mat_sub (frame r) rr cr = Inr sub"
    using assms unfolding rr_def cr_def
    by (cases "Mat_sub (frame r) rr cr") (simp_all add: Run_solar_def Let_def rr_def cr_def)
  note ur = Run_solar_unfold [of r rr cr sub fpf, OF sub rr_def cr_def]
  let ?a3 = "r\<lparr>solarImage := sub, solarImageSize := (int (cols sub), int (rows sub)),
                   solarImageOffset := (fst cr, fst rr)\<rparr>"
  consider (e) "b = r\<lparr>solarImage := sub, state := SOLAR_IMAGE_EMPTY\<rparr>"
    | (s) "b = r\<lparr>solarImage := sub, solarImageSize := (int (cols sub), int (rows sub)),
                   state := SOLAR_IMAGE_SMALL\<rparr>"
    | (ob) "b = ?a3\<lparr>state := SOLAR_IMAGE_OFFSET_OUT_OF_BOUNDS\<rparr>"
    | (f) "b = Run_fiducials fpf ?a3"
    using assms unfolding ur by (simp split: if_splits)
  then show ?thesis
  proof cases
    case f
    show ?thesis unfolding f Run_fiducials_settings by (simp add: settings_def)
  qed (simp_all add: settings_def)
qed

lemma Run_center_settings:
  assumes "Run_center fpf beyond c = Inr b"
  shows "settings b = settings c"
  using assms
proof (cases rule: Run_center_cases)
  case (fail r st)
  have "settings b = settings r" unfolding fail(2) by (simp add: settings_def)
  then show ?thesis using FindPixelCenter_settings [OF fail(1)] by simp
next
  case (solar r)
  show ?thesis using Run_solar_settings [OF solar(3)] FindPixelCenter_settings [OF solar(1)] by simp
qed

lemma searching_cong:
  assumes "frameSize x = frameSize y" "pixelCenter x = pixelCenter y" "solarImage x = solarImage y"
  shows "searching x = searching y"
  unfolding searching_def center_out_of_bounds_def assms by simp

lemma Run_center_again:
  assumes run: "Run_center fpf beyond c = Inr b"
    and loc: "reads_fiducial_inputs fpf"
    and hint: "same_hint c b"
  shows "Run_center fpf beyond
           (c\<lparr>state := state b, pixelCenter := pixelCenter b, pixelError := pixelError b,
              solarImage := solarImage b, solarImageSize := solarImageSize b,
              solarImageOffset := solarImageOffset b, rowPairs := rowPairs b,
              colPairs := colPairs b\<rparr>) = Inr b"
proof -
  let ?d = "c\<lparr>state := state b, pixelCenter := pixelCenter b, pixelError := pixelError b,
              solarImage := solarImage b, solarImageSize := solarImageSize b,
              solarImageOffset := solarImageOffset b, rowPairs := rowPairs b,
              colPairs := colPairs b\<rparr>"
  obtain r where r: "FindPixelCenter beyond c = Inr r"
    using run by (cases "FindPixelCenter beyond c") (simp_all add: Run_center_gate)
  note rc = FindPixelCenter_result [OF r]
  have sb: "settings b = settings c" by (rule Run_center_settings [OF run])
  have sd: "settings ?d = settings c" by (simp add: settings_def)
  have sr: "settings r = settings c" by (rule FindPixelCenter_settings [OF r])
  have "searching ?d = searching b"
    by (rule searching_cong) (simp_all add: settings_fields(2) [OF sb])
  then have m: "searching ?d = searching c" using hint by (auto simp add: same_hint_def split: if_splits)
  have h: "\<not> searching c \<Longrightarrow> solarImage ?d = solarImage c \<and> solarImageOffset ?d = solarImageOffset c"
    using hint by (simp add: same_hint_def)
  let ?q = "?d\<lparr>pixelCenter := pixelCenter r, pixelError := pixelError r,
               limbCrossings := limbCrossings r, slopes := slopes r\<rparr>"
  have q: "FindPixelCenter beyond ?d = Inr ?q"
    by (rule FindPixelCenter_cong [OF sd m h r])
  have cr: "mapping r = mapping c" "pixelFiducials r = pixelFiducials c" "fiducialIDs r = fiducialIDs c"
    "solarImage r = solarImage c" "solarImageSize r = solarImageSize c"
    "solarImageOffset r = solarImageOffset c" "rowPairs r = rowPairs c" "colPairs r = colPairs c"
    "state r = state c"
    by (subst rc, simp)+
  have g: "center_gate ?q = center_gate r"
    by (rule center_gate_cong) (simp_all add: settings_fields [OF sr])
  show ?thesis
  proof (cases "center_gate r")
    case (Some s)
    have b: "b = r\<lparr>state := s, pixelCenter := (Fin (- 1), Fin (- 1))\<rparr>"
      using run r Some by (simp add: Run_center_gate)
    have "Run_center fpf beyond ?d = Inr (?q\<lparr>state := s, pixelCenter := (Fin (- 1), Fin (- 1))\<rparr>)"
      by (simp only: Run_center_gate q sum.case g Some option.case)
    moreover have "?q\<lparr>state := s, pixelCenter := (Fin (- 1), Fin (- 1))\<rparr> = b"
      by (rule Aspect_eqI) (simp_all add: settings_def settings_fields [OF sb] cr, (subst b, simp add: cr)+)
    ultimately show ?thesis by simp
  next
    case None
    have rs: "Run_solar fpf r = Inr b" using run r None by (simp add: Run_center_gate)
    have bp: "pixelCenter b = pixelCenter r" "limbCrossings b = limbCrossings r"
      using Run_solar_facts [OF rs] by simp_all
    have e1: "Run_center fpf beyond ?d = Run_solar fpf ?q"
      by (simp only: Run_center_gate q sum.case g None option.case)
    have e2: "?q = r\<lparr>state := state b, solarImage := solarImage b, solarImageSize := solarImageSize b,
            solarImageOffset := solarImageOffset b, rowPairs := rowPairs b, colPairs := colPairs b\<rparr>"
      by (rule Aspect_eqI) (simp_all add: settings_def settings_fields [OF sr] cr)
    show ?thesis unfolding e1 e2 by (rule Run_solar_again [OF rs loc])
  qed
qed

lemma Run_again_hint:
  assumes mm: "calcMinMax (frame a) = Some mm" "\<not> fst mm \<ge> snd mm"
      "\<not> int (unat (snd mm)) - int (unat (fst mm)) < 32"
    and run: "Run_center fpf beyond ((clear_outputs a)\<lparr>frameMin := fst mm, frameMax := snd mm\<rparr>) = Inr b"
    and loc: "reads_fiducial_inputs fpf"
    and hint: "same_hint a b"
  shows "Run fpf beyond b = Inr b"
proof -
  let ?c = "(clear_outputs a)\<lparr>frameMin := fst mm, frameMax := snd mm\<rparr>"
  let ?d = "?c\<lparr>state := state b, pixelCenter := pixelCenter b, pixelError := pixelError b,
              solarImage := solarImage b, solarImageSize := solarImageSize b,
              solarImageOffset := solarImageOffset b, rowPairs := rowPairs b,
              colPairs := colPairs b\<rparr>"
  have sb: "settings b = settings ?c" by (rule Run_center_settings [OF run])
  have "searching ?c = searching a"
    by (rule searching_cong) (simp_all add: clear_outputs_def)
  then have hint': "same_hint ?c b"
    using hint by (simp add: same_hint_def clear_outputs_def)
  have again: "Run_center fpf beyond ?d = Inr b"
    by (rule Run_center_again [OF run loc hint'])
  have o: "limbCrossings ?c = []" "slopes ?c = []" "pixelFiducials ?c = []" "fiducialIDs ?c = []"
    "mapping ?c = replicate 4 (Fin 0)" "conditionNumbers ?c = replicate 2 (Fin 0)"
    "frameMin ?c = fst mm" "frameMax ?c = snd mm"
    by (simp_all add: clear_outputs_def)
  have sd: "settings ((clear_outputs b)\<lparr>frameMin := fst mm, frameMax := snd mm\<rparr>) = settings ?c"
    using settings_fields [OF sb] o(6)
    by (simp add: settings_def clear_outputs_def)
  have eq: "(clear_outputs b)\<lparr>frameMin := fst mm, frameMax := snd mm\<rparr> = ?d"
    by (rule Aspect_eqI) (simp_all add: sd, simp_all add: settings_def clear_outputs_def)
  have fb: "frame (clear_outputs b) = frame a"
    using Run_center_frame [OF run] by (simp add: clear_outputs_def)
  have ne: "state (clear_outputs b) \<noteq> FRAME_EMPTY"
    using Run_states [OF run] by (simp add: clear_outputs_def)
  have again': "Run_center fpf beyond ((clear_outputs b)\<lparr>frameMin := fst mm, frameMax := snd mm\<rparr>) = Inr b"
    unfolding eq by (rule again)
  show ?thesis
    unfolding Run_def Let_def fb mm(1) option.case
    using ne mm(2,3) again' by (simp only: if_False fst_conv snd_conv)
qed

lemma edge_first: "map_sum id state (Run no_fiducials full_beyond edge_loaded) = Inr NO_LIMB_CROSSINGS"
  by code_simp

lemma edge_second:
  "map_sum id state (Run_twice no_fiducials full_beyond zero_beyond edge_loaded) = Inr FEW_LIMB_CROSSINGS"
  by code_simp

lemma reads_no_fiducials: "reads_fiducial_inputs no_fiducials"
  by (simp add: reads_fiducial_inputs_def no_fiducials_def)

lemma corner_hint: "same_hint corner_first corner_second"
proof -
  have a: "\<not> searching corner_first"
    by (simp add: searching_def corner_first_fields corner_sub_size Mat_empty_def)
  have b: "\<not> searching corner_second"
    by (simp add: searching_def corner_second_def corner_centered_def clear_outputs_def
        corner_first_fields(9) center_out_of_bounds_def flt_ge_def flt_of_int_def corner_sub_size
        Mat_empty_def)
  have c: "solarImage corner_second = solarImage corner_first"
    "solarImageOffset corner_second = solarImageOffset corner_first"
    by (simp_all add: corner_second_def corner_centered_def clear_outputs_def corner_first_fields)
  show ?thesis using a b c by (simp add: same_hint_def)
qed

lemma cross_state: "map_sum id state (Run no_fiducials zero_beyond cross_loaded) = Inr NO_LIMB_CROSSINGS"
  by code_simp

lemma cross_search: "center_out_of_bounds cross_loaded (pixelCenter cross_loaded)"
  by code_simp

subsection \<open>Limb crossings\<close>














lemma scan_edges_range:
  assumes "scan_edges plt xs k lastValue pm edges = (pm', edges')"
    and "\<forall>e \<in> set edges. \<bar>e\<bar> < k" and "1 \<le> k"
  shows "\<forall>e \<in> set edges'. \<bar>e\<bar> < k + int (length xs)"
  using assms
proof (induction xs arbitrary: k lastValue pm edges)
  case Nil
  then show ?case by simp
next
  case (Cons x xs)
  let ?edges = "(if lastValue \<le> plt \<and> x > plt then edges @ [k]
        else if lastValue > plt \<and> x \<le> plt then edges @ [- (k - 1)]
        else edges)"
  have s: "scan_edges plt xs (k + 1) x (if x > pm then x else pm) ?edges = (pm', edges')"
    using Cons.prems(1) by simp
  have b: "\<forall>e \<in> set ?edges. \<bar>e\<bar> < k + 1"
    using Cons.prems(2,3) by auto
  have "\<forall>e \<in> set edges'. \<bar>e\<bar> < k + 1 + int (length xs)"
    by (rule Cons.IH [OF s b]) (use Cons.prems(3) in simp)
  then show ?case by (simp add: add.assoc)
qed

section \<open>The claims\<close>

subsection \<open>The centre after \<open>Run\<close>\<close>

text \<open>
  C2 (as amended). When \<open>Run\<close> returns \<open>NO_ERROR\<close> or a state of the solar-image,
  fiducial or ID groups, it has passed the centre gates and \<open>pixelCenter\<close> is finite and
  inside \<open>[0,W) x [0,H)\<close>. When it returns a state of the limb or centre groups,
  \<open>pixelCenter\<close> is the sentinel \<open>(-1,-1)\<close>. When it returns \<open>FRAME_EMPTY\<close>,
  \<open>MIN_MAX_BAD\<close> or \<open>DYNAMIC_RANGE_LOW\<close>, \<open>pixelCenter\<close> is what it was before the
  call. \<open>Run\<close> returns no other state.
\<close>

theorem Run_pixelCenter:
  assumes "Run fpf beyond a = Inr b"
  shows "(state b \<in> {NO_ERROR, SOLAR_IMAGE_EMPTY, SOLAR_IMAGE_SMALL, SOLAR_IMAGE_OFFSET_OUT_OF_BOUNDS,
                     NO_FIDUCIALS, FEW_FIDUCIALS, NO_IDS, FEW_IDS} \<longrightarrow>
            (\<exists>x y. pixelCenter b = (Fin x, Fin y) \<and> 0 \<le> x \<and> x < real_of_int (fst (frameSize a)) \<and>
                   0 \<le> y \<and> y < real_of_int (snd (frameSize a)))) \<and>
         (state b \<in> {NO_LIMB_CROSSINGS, FEW_LIMB_CROSSINGS, CENTER_OUT_OF_BOUNDS, CENTER_ERROR_LARGE} \<longrightarrow>
            pixelCenter b = (Fin (- 1), Fin (- 1))) \<and>
         (state b \<in> {FRAME_EMPTY, MIN_MAX_BAD, DYNAMIC_RANGE_LOW} \<longrightarrow> pixelCenter b = pixelCenter a) \<and>
         state b \<notin> {STALE_DATA, MAPPING_ILL_CONDITIONED, LIMB_ERROR, CENTER_ERROR, FIDUCIAL_ERROR,
                     ID_ERROR, MAPPING_ERROR}"
  using assms
proof (cases rule: Run_cases)
  case (center mm)
  let ?a = "(clear_outputs a)\<lparr>frameMin := fst mm, frameMax := snd mm\<rparr>"
  have fs: "frameSize ?a = frameSize a" by (simp add: clear_outputs_def)
  note f = Run_center_facts [OF center(5)]
  have ib: "state b \<notin> {NO_LIMB_CROSSINGS, FEW_LIMB_CROSSINGS, CENTER_OUT_OF_BOUNDS, CENTER_ERROR_LARGE} \<Longrightarrow>
    \<exists>x y. pixelCenter b = (Fin x, Fin y) \<and> 0 \<le> x \<and> x < real_of_int (fst (frameSize a)) \<and>
                   0 \<le> y \<and> y < real_of_int (snd (frameSize a))"
    using f in_bounds_iff [of ?a "pixelCenter b"] fs by simp
  have f3: "state b \<in> {NO_LIMB_CROSSINGS, FEW_LIMB_CROSSINGS, CENTER_OUT_OF_BOUNDS, CENTER_ERROR_LARGE,
               SOLAR_IMAGE_EMPTY, SOLAR_IMAGE_SMALL, SOLAR_IMAGE_OFFSET_OUT_OF_BOUNDS,
               NO_FIDUCIALS, FEW_FIDUCIALS, NO_IDS, FEW_IDS, NO_ERROR}" using f by blast
  have f4: "state b \<in> {NO_LIMB_CROSSINGS, FEW_LIMB_CROSSINGS, CENTER_OUT_OF_BOUNDS, CENTER_ERROR_LARGE} \<longrightarrow>
      pixelCenter b = (Fin (- 1), Fin (- 1))" using f by blast
  have g1: "state b \<in> {NO_ERROR, SOLAR_IMAGE_EMPTY, SOLAR_IMAGE_SMALL, SOLAR_IMAGE_OFFSET_OUT_OF_BOUNDS,
                     NO_FIDUCIALS, FEW_FIDUCIALS, NO_IDS, FEW_IDS} \<Longrightarrow>
             state b \<notin> {NO_LIMB_CROSSINGS, FEW_LIMB_CROSSINGS, CENTER_OUT_OF_BOUNDS, CENTER_ERROR_LARGE}"
    by auto
  have g3: "state b \<notin> {FRAME_EMPTY, MIN_MAX_BAD, DYNAMIC_RANGE_LOW}"
    using f3 by auto
  have g4: "state b \<notin> {STALE_DATA, MAPPING_ILL_CONDITIONED, LIMB_ERROR, CENTER_ERROR, FIDUCIAL_ERROR,
                     ID_ERROR, MAPPING_ERROR}"
    using f3 by auto
  show ?thesis using g1 ib f4 g3 g4 by blast
next
  case empty
  then show ?thesis by (simp add: clear_outputs_def)
next
  case (bad mm)
  then show ?thesis by (simp add: clear_outputs_def)
next
  case (low mm)
  then show ?thesis by (simp add: clear_outputs_def)
qed

theorem Run_pixelCenter_witness:
  "pixelCenter corner_first = (Fin (13 / 12), Fin (13 / 12)) \<and>
   state corner_first = SOLAR_IMAGE_SMALL \<and>
   (\<exists>x y. pixelCenter corner_first = (Fin x, Fin y) \<and> 0 \<le> x \<and> x < 6 \<and> 0 \<le> y \<and> y < 6) \<and>
   state low_first = DYNAMIC_RANGE_LOW \<and>
   pixelCenter low_first = pixelCenter (LoadFrame Aspect_new frame_low)"
  using Run_pixelCenter [OF corner_run1 [of no_fiducials zero_beyond]]
    Run_pixelCenter [OF low_run [of no_fiducials zero_beyond]]
  by (simp add: corner_first_def low_first_def corner_centered_def clear_outputs_def
      corner_loaded_fields)

text \<open>
  The claim as stated fails on both sides. A fresh object that runs on \<open>frame_low\<close>
  returns \<open>DYNAMIC_RANGE_LOW\<close>, a state below the centre group, and its \<open>pixelCenter\<close>
  is the sentinel, which is not inside the frame. A fresh object that runs on
  \<open>frame_corner\<close> returns \<open>SOLAR_IMAGE_SMALL\<close>, a state above the centre group, and
  its \<open>pixelCenter\<close> is \<open>(13/12, 13/12)\<close>, not the sentinel.
\<close>

theorem Run_pixelCenter_counterexample:
  "Run no_fiducials zero_beyond (LoadFrame Aspect_new frame_low) = Inr low_first \<and>
   state low_first = DYNAMIC_RANGE_LOW \<and>
   severity (state low_first) \<le> severity CENTER_ERROR_LARGE \<and>
   pixelCenter low_first = (Fin (- 1), Fin (- 1)) \<and>
   center_out_of_bounds low_first (pixelCenter low_first) \<and>
   Run no_fiducials zero_beyond corner_loaded = Inr corner_first \<and>
   state corner_first = SOLAR_IMAGE_SMALL \<and>
   severity CENTER_ERROR_LARGE < severity (state corner_first) \<and>
   pixelCenter corner_first = (Fin (13 / 12), Fin (13 / 12)) \<and>
   pixelCenter corner_first \<noteq> (Fin (- 1), Fin (- 1))"
proof -
  have "state low_first = DYNAMIC_RANGE_LOW" "pixelCenter low_first = (Fin (- 1), Fin (- 1))"
    "center_out_of_bounds low_first (pixelCenter low_first)"
    by (simp_all add: low_first_def clear_outputs_def LoadFrame_def Aspect_new_def
        center_out_of_bounds_def low_size Mat_empty_def)
  moreover have "state corner_first = SOLAR_IMAGE_SMALL"
    "pixelCenter corner_first = (Fin (13 / 12), Fin (13 / 12))"
    by (simp_all add: corner_first_def corner_centered_def)
  ultimately show ?thesis using low_run corner_run1 by simp
qed

subsection \<open>Two consecutive runs\<close>

text \<open>
  C3 (as amended). A second \<open>Run\<close> on the same frame returns the object unchanged,
  so with outputs identical to those of the first, in each of two cases. Either the
  first \<open>Run\<close> returned \<open>FRAME_EMPTY\<close>, \<open>MIN_MAX_BAD\<close> or
  \<open>DYNAMIC_RANGE_LOW\<close>. Or the first \<open>Run\<close> left the hint it had found (both calls
  search the whole frame, or both work on the same sub-image at the same offset) and
  the byte the fit loop reads behind the end of a chord is the same in both calls; the
  fiducial detector is any function of the members \<open>FindPixelFiducials\<close> reads.
  What the second \<open>Run\<close> does after a change of the hint, or of that byte, is left
  open.
\<close>

theorem Run_twice_same:
  assumes run: "Run fpf beyond1 a = Inr b"
    and hint: "state b \<in> {FRAME_EMPTY, MIN_MAX_BAD, DYNAMIC_RANGE_LOW} \<or>
               (same_hint a b \<and> beyond2 = beyond1 \<and> reads_fiducial_inputs fpf)"
  shows "Run fpf beyond2 b = Inr b \<and> Run_twice fpf beyond1 beyond2 a = Run fpf beyond1 a"
proof -
  have "Run fpf beyond2 b = Inr b"
    using run
  proof (cases rule: Run_cases)
    case empty
    show ?thesis unfolding empty(2) by (rule Run_again_empty)
  next
    case (bad mm)
    show ?thesis unfolding bad(4) by (rule Run_again_bad [OF bad(2,3)])
  next
    case (low mm)
    show ?thesis unfolding low(5) by (rule Run_again_low [OF low(2-4)])
  next
    case (center mm)
    have h: "same_hint a b" "beyond2 = beyond1" "reads_fiducial_inputs fpf"
      using hint Run_states [OF center(5)] by blast+
    show ?thesis unfolding h(2) by (rule Run_again_hint [OF center(2-5) h(3) h(1)])
  qed
  then show ?thesis using run by (simp add: Run_twice_def)
qed

theorem Run_twice_same_witness:
  "Run no_fiducials full_beyond low_first = Inr low_first \<and>
   Run_twice no_fiducials zero_beyond full_beyond (LoadFrame Aspect_new frame_low) =
     Run no_fiducials zero_beyond (LoadFrame Aspect_new frame_low) \<and>
   same_hint corner_first corner_second \<and>
   Run no_fiducials zero_beyond corner_second = Inr corner_second \<and>
   Run_twice no_fiducials zero_beyond zero_beyond corner_first = Run no_fiducials zero_beyond corner_first"
proof -
  have l: "state low_first \<in> {FRAME_EMPTY, MIN_MAX_BAD, DYNAMIC_RANGE_LOW} \<or>
       (same_hint (LoadFrame Aspect_new frame_low) low_first \<and> full_beyond = zero_beyond \<and>
        reads_fiducial_inputs no_fiducials)"
    by (simp add: low_first_def)
  have c: "state corner_second \<in> {FRAME_EMPTY, MIN_MAX_BAD, DYNAMIC_RANGE_LOW} \<or>
       (same_hint corner_first corner_second \<and> zero_beyond = zero_beyond \<and>
        reads_fiducial_inputs no_fiducials)"
    using corner_hint reads_no_fiducials by simp
  show ?thesis
    using Run_twice_same [OF low_run l] Run_twice_same [OF corner_run2 c] corner_hint by simp
qed

text \<open>
  The claim as stated fails. A fresh object that runs twice on \<open>frame_corner\<close>
  searches the whole frame with \<open>initialNumChords = 30\<close> chords per axis the first time
  and, with the centre and the sub-image it then remembers, the sub-image with
  \<open>chordsPerAxis = 10\<close> chords per axis the second time: 120 limb crossings, then 40.
  And on \<open>frame_edge\<close> the fit loop reads the byte behind the row: with 255 there the
  first \<open>Run\<close> finds no limb crossing, and with 0 there the second \<open>Run\<close> finds
  two.
\<close>

theorem Run_twice_counterexample:
  "Run no_fiducials zero_beyond corner_loaded = Inr corner_first \<and>
   Run_twice no_fiducials zero_beyond zero_beyond corner_loaded = Inr corner_second \<and>
   length (limbCrossings corner_first) = 120 \<and>
   length (limbCrossings corner_second) = 40 \<and>
   corner_first \<noteq> corner_second \<and>
   map_sum id state (Run no_fiducials full_beyond edge_loaded) = Inr NO_LIMB_CROSSINGS \<and>
   map_sum id state (Run_twice no_fiducials full_beyond zero_beyond edge_loaded) = Inr FEW_LIMB_CROSSINGS"
proof -
  have l: "length (limbCrossings corner_first) = 120" "length (limbCrossings corner_second) = 40"
    by (simp_all add: corner_first_def corner_second_def corner_centered_def length_corner_crossings)
  then have "corner_first \<noteq> corner_second" by auto
  then show ?thesis using l corner_run1 corner_run2 edge_first edge_second by (simp add: Run_twice_def)
qed

subsection \<open>The stored limb crossings\<close>




subsection \<open>A chord with a single edge\<close>

text \<open>
  C5 (as amended). Take a chord whose maximum reaches the upper threshold and whose
  scan records exactly one threshold crossing, at a position other than 0. A falling
  edge at a position below \<open>2 * solarRadius\<close> gets a virtual rising edge at \<open>-1\<close>:
  the chord returns 0 and the pair \<open>(-1, c)\<close>, \<open>c\<close> the fitted position of the falling
  edge, when the fit of that edge succeeds, and the code of the fit with the crossing
  \<open>-1\<close> alone otherwise. A rising edge at a position above \<open>K - 2 * solarRadius\<close>
  gets a virtual falling edge at \<open>K\<close>, not a leading edge at \<open>-1\<close>: the chord returns 0
  and the pair \<open>(c, K)\<close> when the fit succeeds, and the code of the fit otherwise. Any
  other single edge returns \<open>-1\<close> and leaves \<open>crossings\<close> alone.
\<close>

theorem single_edge:
  assumes sc: "scan_edges (pixelLowerThreshold a) (tl chord) 1 (chord_at beyond chord 0)
                 (chord_at beyond chord 0) [] = (pm, [e])"
    and br: "\<not> real (unat pm) < upperThreshold a"
    and nz: "e \<noteq> 0"
  shows "FindLimbCrossings a beyond chord cr sl =
     (if e < 0 \<and> \<bar>e\<bar> < 2 * solarRadius a then
        (case fit_edge a beyond chord e of
           Inl code \<Rightarrow> (code, [Fin (- 1)], sl)
         | Inr (c, s) \<Rightarrow> (0, [Fin (- 1), c], sl @ [s]))
      else if e > 0 \<and> \<bar>e\<bar> > int (length chord) - 2 * solarRadius a then
        (case fit_edge a beyond chord e of
           Inl code \<Rightarrow> (code, [], sl)
         | Inr (c, s) \<Rightarrow> (0, [c, flt_of_int (int (length chord))], sl @ [s]))
      else (- 1, cr, sl))"
proof -
  let ?K = "int (length chord)"
  have ne: "chord \<noteq> []" "tl chord \<noteq> []"
    using sc by (cases chord; cases "tl chord"; simp)+
  then have K: "2 \<le> ?K" by (cases chord; cases "tl chord"; simp)
  have "\<forall>x \<in> set [e]. \<bar>x\<bar> < 1 + int (length (tl chord))"
    by (rule scan_edges_range [OF sc]) simp_all
  moreover have "1 + int (length (tl chord)) = ?K" using ne by (cases chord) simp_all
  ultimately have eK: "\<bar>e\<bar> < ?K" by simp
  have f: "FindLimbCrossings a beyond chord cr sl =
     (case select_edges a ?K [e] of
                 None \<Rightarrow> (- 1, cr, sl)
               | Some edges \<Rightarrow>
                   if length edges = 2 \<and> edges ! 0 \<ge> - 1 \<and> edges ! 1 < 0 then
                     (case refine_step a beyond chord edges 0 ([], sl) of
                        Inl r \<Rightarrow> r
                      | Inr cs0 \<Rightarrow>
                          (case refine_step a beyond chord edges 1 cs0 of
                             Inl r \<Rightarrow> r
                           | Inr cs1 \<Rightarrow>
                               if length (fst cs1) = 2 then (0, fst cs1, snd cs1)
                               else (- 1, fst cs1, snd cs1)))
                   else (- 1, cr, sl))"
    using br unfolding FindLimbCrossings_def Let_def sc by simp
  consider (fall) "e < 0" "\<bar>e\<bar> < 2 * solarRadius a"
    | (rise) "e > 0" "\<bar>e\<bar> > ?K - 2 * solarRadius a"
    | (none) "\<not> (e < 0 \<and> \<bar>e\<bar> < 2 * solarRadius a)" "\<not> (e > 0 \<and> \<bar>e\<bar> > ?K - 2 * solarRadius a)"
    by linarith
  then show ?thesis
  proof cases
    case fall
    have se: "select_edges a ?K [e] = Some [- 1, e]"
      using fall by (simp add: select_edges_def)
    have r0: "refine_step a beyond chord [- 1, e] 0 ([], sl) = Inr ([Fin (- 1)], sl)"
      by (simp add: refine_step_def)
    show ?thesis
    proof (cases "fit_edge a beyond chord e")
      case (Inl code)
      have r1: "refine_step a beyond chord [- 1, e] (Suc 0) ([Fin (- 1)], sl) = Inl (code, [Fin (- 1)], sl)"
        using eK fall Inl by (simp add: refine_step_def Let_def)
      show ?thesis unfolding f se using fall r0 r1 Inl by simp
    next
      case (Inr p)
      obtain c s where p: "p = (c, s)" by (cases p)
      have r1: "refine_step a beyond chord [- 1, e] (Suc 0) ([Fin (- 1)], sl) = Inr ([Fin (- 1), c], sl @ [s])"
        using eK fall Inr p by (simp add: refine_step_def Let_def)
      show ?thesis unfolding f se using fall r0 r1 Inr p by simp
    qed
  next
    case rise
    have se: "select_edges a ?K [e] = Some [e, - ?K]"
      using rise by (simp add: select_edges_def)
    have r1: "refine_step a beyond chord [e, - ?K] (Suc 0) cs = Inr (fst cs @ [flt_of_int ?K], snd cs)" for cs
      by (simp add: refine_step_def Let_def)
    show ?thesis
    proof (cases "fit_edge a beyond chord e")
      case (Inl code)
      have r0: "refine_step a beyond chord [e, - ?K] 0 ([], sl) = Inl (code, [], sl)"
        using rise Inl by (simp add: refine_step_def Let_def)
      show ?thesis unfolding f se using rise K ne r0 Inl by simp
    next
      case (Inr p)
      obtain c s where p: "p = (c, s)" by (cases p)
      have r0: "refine_step a beyond chord [e, - ?K] 0 ([], sl) = Inr ([c], sl @ [s])"
        using rise Inr p by (simp add: refine_step_def Let_def)
      show ?thesis unfolding f se using rise K ne r0 r1 Inr p by simp
    qed
  next
    case none
    have se: "select_edges a ?K [e] = None"
      using none nz by (auto simp add: select_edges_def)
    show ?thesis unfolding f se by (simp only: none if_False option.case)
  qed
qed

theorem single_edge_witness:
  "FindLimbCrossings corner_ref 0 [200, 200, 200, 10, 10, 10] [] [] =
     (0, [Fin (- 1), Fin (19 / 6)], [Fin 57]) \<and>
   FindLimbCrossings dark_ref 0 [0, 0, 0, 200, 200, 200, 200, 200] [] [] =
     (0, [Fin (11 / 6), Fin 8], [Fin 60])"
proof -
  have s1: "scan_edges (pixelLowerThreshold corner_ref) (tl [200, 200, 200, 10, 10, 10]) 1
              (chord_at 0 [200, 200, 200, 10, 10, 10] 0) (chord_at 0 [200, 200, 200, 10, 10, 10] 0) [] =
            (200, [- 2])"
    by code_simp
  have b1: "\<not> real (unat (200 :: pixel)) < upperThreshold corner_ref" by code_simp
  have f1: "fit_edge corner_ref 0 [200, 200, 200, 10, 10, 10] (- 2) = Inr (Fin (19 / 6), Fin 57)"
    by code_simp
  have s2: "scan_edges (pixelLowerThreshold dark_ref) (tl [0, 0, 0, 200, 200, 200, 200, 200]) 1
              (chord_at 0 [0, 0, 0, 200, 200, 200, 200, 200] 0)
              (chord_at 0 [0, 0, 0, 200, 200, 200, 200, 200] 0) [] = (200, [3])"
    by code_simp
  have b2: "\<not> real (unat (200 :: pixel)) < upperThreshold dark_ref" by code_simp
  have f2: "fit_edge dark_ref 0 [0, 0, 0, 200, 200, 200, 200, 200] 3 = Inr (Fin (11 / 6), Fin 60)"
    by code_simp
  have r: "solarRadius corner_ref = 98" "solarRadius dark_ref = 98"
    by (simp_all add: corner_ref_def dark_ref_def Aspect_new_def)
  show ?thesis
    using single_edge [OF s1 b1, of "[]" "[]"] single_edge [OF s2 b2, of "[]" "[]"]
    by (simp add: f1 f2 r flt_of_int_def)
qed

text \<open>
  The claim as stated fails on both sides. A chord of 8 pixels whose only edge rises at
  column 3 returns the pair \<open>(11/6, 8)\<close>: the virtual edge is the trailing one at
  \<open>K = 8\<close>, and the first crossing is the fitted edge, not \<open>-1\<close>. And the chord
  51, 51, 200, 50, 50, 50 has a lone falling edge at position 2, below
  \<open>2 * solarRadius\<close>, and returns \<open>-3\<close>, no pair: the fitted edge leaves its window.
\<close>

theorem single_edge_counterexample:
  "scan_edges (pixelLowerThreshold dark_ref) (tl [0, 0, 0, 200, 200, 200, 200, 200]) 1
     (chord_at 0 [0, 0, 0, 200, 200, 200, 200, 200] 0)
     (chord_at 0 [0, 0, 0, 200, 200, 200, 200, 200] 0) [] = (200, [3]) \<and>
   3 \<le> solarRadius dark_ref \<and>
   FindLimbCrossings dark_ref 0 [0, 0, 0, 200, 200, 200, 200, 200] [] [] =
     (0, [Fin (11 / 6), Fin 8], [Fin 60]) \<and>
   scan_edges (pixelLowerThreshold dark_ref) (tl [51, 51, 200, 50, 50, 50]) 1
     (chord_at 0 [51, 51, 200, 50, 50, 50] 0) (chord_at 0 [51, 51, 200, 50, 50, 50] 0) [] = (200, [- 2]) \<and>
   \<not> real (unat (200 :: pixel)) < upperThreshold dark_ref \<and>
   FindLimbCrossings dark_ref 0 [51, 51, 200, 50, 50, 50] [] [] = (- 3, [Fin (- 1)], [])"
  by code_simp

subsection \<open>The window of the linear fit\<close>

text \<open>
  C9. The claim does not hold of the code. On the chord 200, 200, 200, 200, 10 of
  length \<open>K = 5\<close> the falling edge is at index 3 and the fit loop reads the indices 1 to
  5: index 5 is one past the end of the chord (line 897 clamps \<open>max\<close> to \<open>K\<close>, and
  the loop of line 908 runs up to \<open>max\<close> included). The result depends on the byte
  found there: with 0 the chord returns the pair \<open>(-1, 483/118)\<close>, with 255 it returns
  \<open>-3\<close>.
\<close>

theorem fit_window_past_end:
  "fit_indices corner_ref (int (length [200 :: pixel, 200, 200, 200, 10])) 3 = [1, 2, 3, 4, 5] \<and>
   chord_at 0 [200, 200, 200, 200, 10] 5 = 0 \<and>
   chord_at 255 [200, 200, 200, 200, 10] 5 = 255 \<and>
   FindLimbCrossings corner_ref 0 [200, 200, 200, 200, 10] [] [] =
     (0, [Fin (- 1), Fin (483 / 118)], [Fin 59]) \<and>
   FindLimbCrossings corner_ref 255 [200, 200, 200, 200, 10] [] [] = (- 3, [Fin (- 1)], [])"
  by code_simp

end
